theory Spec2Isabelle
  imports Complex_Main "HOL-Library.Word"
begin

unbundle bit_operations_syntax

section \<open>JavaScript values\<close>

text \<open>
  A JavaScript string is a sequence of UTF-16 code units. \<open>js\<close> writes an ASCII literal
  of the source as such a sequence.
\<close>

type_synonym jsstring = "16 word list"

definition js :: "string \<Rightarrow> jsstring" where
  "js s = map of_char s"

text \<open>
  The exceptions that the modelled code can meet: \<^verbatim>\<open>JSON.parse\<close> raises SyntaxError,
  \<^verbatim>\<open>btoa\<close> and \<^verbatim>\<open>atob\<close> raise InvalidCharacterError, a typed-array view of a buffer of the
  wrong size raises RangeError, \<^verbatim>\<open>createBuffer\<close> raises NotSupportedError, and a request
  to the remote service or to the browser can be rejected.
\<close>

datatype js_error =
  SyntaxError | TypeError | RangeError | InvalidCharacterError | NotSupportedError | Rejected

text \<open>
  The characters matched by \<^verbatim>\<open>\s\<close> in a regular expression, which are also the ones
  removed by \<^verbatim>\<open>String.prototype.trim\<close> (white space and line terminators).
\<close>

definition is_space :: "16 word \<Rightarrow> bool" where
  "is_space c =
     (c = 0x09 \<or> c = 0x0A \<or> c = 0x0B \<or> c = 0x0C \<or> c = 0x0D \<or> c = 0x20 \<or> c = 0xA0 \<or>
      c = 0x1680 \<or> (0x2000 \<le> c \<and> c \<le> 0x200A) \<or> c = 0x2028 \<or> c = 0x2029 \<or>
      c = 0x202F \<or> c = 0x205F \<or> c = 0x3000 \<or> c = 0xFEFF)"

definition trim :: "jsstring \<Rightarrow> jsstring" where
  "trim s = rev (dropWhile is_space (rev (dropWhile is_space s)))"

datatype json =
  JNull | JBool bool | JNumber real | JString jsstring | JArray "json list"
  | JObject "(jsstring \<times> json) list"

section \<open>Study planner: the exam list\<close>

text \<open>
  \<^verbatim>\<open>StudyPlanner\<close> keeps \<^verbatim>\<open>exams : Array<{name: string, date: string}>\<close> in component
  state. The handlers read the current array and pass the next one to \<^verbatim>\<open>setExams\<close>; the
  model takes the current array and returns the next one. The index handed to a handler is
  the position \<^verbatim>\<open>idx\<close> of \<^verbatim>\<open>exams.map((exam, idx) => ...)\<close>, a natural number.
\<close>

record exam =
  name :: jsstring
  date :: jsstring

definition blank_exam :: exam where
  "blank_exam = \<lparr>name = [], date = []\<rparr>"

text \<open>
  The initial state when nothing is saved under \<^verbatim>\<open>vidya_exams\<close>; otherwise it is the list
  that an earlier run of the component saved there.
\<close>

definition initial_exams :: "exam list" where
  "initial_exams = [blank_exam]"

text \<open>\<^verbatim>\<open>xs.filter((_, i) => i !== idx)\<close>: the callback sees each element with its position.\<close>

fun filter_index :: "nat \<Rightarrow> nat \<Rightarrow> 'a list \<Rightarrow> 'a list" where
  "filter_index i idx [] = []"
| "filter_index i idx (x # xs) =
     (if i \<noteq> idx then x # filter_index (Suc i) idx xs else filter_index (Suc i) idx xs)"

definition addExam :: "exam list \<Rightarrow> exam list" where
  "addExam exams = exams @ [blank_exam]"

definition removeExam :: "nat \<Rightarrow> exam list \<Rightarrow> exam list" where
  "removeExam idx exams =
     (if length exams > 1 then filter_index 0 idx exams else [blank_exam])"

datatype exam_field = Name | Date

text \<open>
  \<^verbatim>\<open>updateExam\<close> copies the array and assigns \<^verbatim>\<open>newExams[idx][field]\<close>; with \<^verbatim>\<open>idx\<close> past the
  end \<^verbatim>\<open>newExams[idx]\<close> is \<^verbatim>\<open>undefined\<close> and the assignment raises a TypeError, so no
  \<^verbatim>\<open>setExams\<close> happens.
\<close>

definition updateExam :: "nat \<Rightarrow> exam_field \<Rightarrow> jsstring \<Rightarrow> exam list \<Rightarrow> exam list option" where
  "updateExam idx field v exams =
     (if idx < length exams
      then Some (exams[idx := (case field of
                                 Name \<Rightarrow> (exams ! idx)\<lparr>name := v\<rparr>
                               | Date \<Rightarrow> (exams ! idx)\<lparr>date := v\<rparr>)])
      else None)"

section \<open>Quiz generator: score and history\<close>

record QuizQuestion =
  question :: jsstring
  options :: "jsstring list"
  correctAnswer :: jsstring
  explanation :: jsstring

record QuizResult =
  result_date :: jsstring
  result_topic :: jsstring
  score :: nat
  total :: nat
  result_difficulty :: jsstring

datatype quiz_view = SETUP | QUIZ | RESULT

text \<open>
  The part of the \<^verbatim>\<open>QuizGenerator\<close> state that \<^verbatim>\<open>finishQuiz\<close> reads or writes.
  \<^verbatim>\<open>answers\<close> is the object \<^verbatim>\<open>{[key: number]: string}\<close>: a missing key reads as
  \<^verbatim>\<open>undefined\<close>, which is never \<^verbatim>\<open>===\<close> to a string.
\<close>

record quiz_state =
  topic :: jsstring
  difficulty :: jsstring
  view :: quiz_view
  quiz :: "QuizQuestion list"
  answers :: "nat \<rightharpoonup> jsstring"
  history :: "QuizResult list"

text \<open>\<^verbatim>\<open>quiz.forEach((q, idx) => { if (answers[idx] === q.correctAnswer) score++; })\<close>\<close>

fun score_loop :: "(nat \<rightharpoonup> jsstring) \<Rightarrow> nat \<Rightarrow> QuizQuestion list \<Rightarrow> nat \<Rightarrow> nat" where
  "score_loop ans idx [] sc = sc"
| "score_loop ans idx (q # qs) sc =
     score_loop ans (Suc idx) qs (if ans idx = Some (correctAnswer q) then Suc sc else sc)"

definition calculateScore :: "quiz_state \<Rightarrow> nat" where
  "calculateScore s = score_loop (answers s) 0 (quiz s) 0"

text \<open>\<^verbatim>\<open>today\<close> stands for \<^verbatim>\<open>new Date().toLocaleDateString()\<close>.\<close>

definition finishQuiz :: "jsstring \<Rightarrow> quiz_state \<Rightarrow> quiz_state" where
  "finishQuiz today s =
     (let result = \<lparr>result_date = today, result_topic = topic s, score = calculateScore s,
                     total = length (quiz s), result_difficulty = difficulty s\<rparr>
      in s\<lparr>history := take 10 (result # history s), view := RESULT\<rparr>)"

text \<open>The entry that one call of \<^verbatim>\<open>finishQuiz\<close> puts in front of the history.\<close>

definition quiz_result :: "jsstring \<Rightarrow> quiz_state \<Rightarrow> QuizResult" where
  "quiz_result today s =
     \<lparr>result_date = today, result_topic = topic s, score = calculateScore s,
      total = length (quiz s), result_difficulty = difficulty s\<rparr>"

text \<open>
  A sequence of finished quizzes. Between two calls the other handlers change topic,
  difficulty, questions and answers but never the history, so each round is given by the
  date and the state in which \<^verbatim>\<open>finishQuiz\<close> runs, with the history carried over.
\<close>

fun finish_rounds :: "(jsstring \<times> quiz_state) list \<Rightarrow> QuizResult list \<Rightarrow> QuizResult list" where
  "finish_rounds [] h = h"
| "finish_rounds ((today, s) # rs) h =
     finish_rounds rs (history (finishQuiz today (s\<lparr>history := h\<rparr>)))"

section \<open>Quiz generation: reading the model's answer\<close>

text \<open>
  \<^verbatim>\<open>text.replace(/^```json\s*/, "")\<close> and \<^verbatim>\<open>.replace(/^```\s*/, "")\<close>: when the string starts
  with the literal, the literal and the white space after it are removed; otherwise the
  string is unchanged.
\<close>

definition replace_leading :: "jsstring \<Rightarrow> jsstring \<Rightarrow> jsstring" where
  "replace_leading lit s =
     (if take (length lit) s = lit then dropWhile is_space (drop (length lit) s) else s)"

text \<open>
  \<^verbatim>\<open>.replace(/\s*```$/, "")\<close>: the pattern has no flag, so \<^verbatim>\<open>$\<close> is the end of the string;
  the leftmost match starts at the first character of the white space that stands
  directly before the closing fence.
\<close>

definition replace_trailing_fence :: "jsstring \<Rightarrow> jsstring" where
  "replace_trailing_fence s =
     (if 3 \<le> length s \<and> drop (length s - 3) s = js ''```''
      then rev (dropWhile is_space (rev (take (length s - 3) s)))
      else s)"

definition cleanJSON :: "jsstring \<Rightarrow> jsstring" where
  "cleanJSON text =
     (if text = [] then js ''[]''
      else trim (replace_trailing_fence
                   (replace_leading (js ''```'') (replace_leading (js ''```json'') text))))"

text \<open>
  \<^verbatim>\<open>generateQuiz\<close> after the request: \<open>response\<close> is \<open>Inl e\<close> when \<^verbatim>\<open>getClient\<close> or
  \<^verbatim>\<open>generateContent\<close> fails (the promise of \<^verbatim>\<open>generateQuiz\<close> is then rejected with it) and
  \<open>Inr text\<close> when the service answers, \<open>text\<close> being \<^verbatim>\<open>response.text\<close> (\<open>None\<close> for
  \<^verbatim>\<open>undefined\<close>). \<^verbatim>\<open>JSON.parse\<close> belongs to the platform and is a parameter: \<open>Inl\<close> is
  the SyntaxError it raises. The cast \<^verbatim>\<open>as QuizQuestion[]\<close> checks nothing, so the result is
  whatever value was parsed.
\<close>

definition generateQuiz ::
  "(jsstring \<Rightarrow> js_error + json) \<Rightarrow> js_error + jsstring option \<Rightarrow> js_error + json" where
  "generateQuiz JSON_parse response =
     (case response of
        Inl e \<Rightarrow> Inl e
      | Inr text \<Rightarrow>
          (case text of
             None \<Rightarrow> Inr (JArray [])
           | Some t \<Rightarrow>
               if t = [] then Inr (JArray [])
               else (case JSON_parse (cleanJSON t) of
                       Inl e \<Rightarrow> Inr (JArray [])
                     | Inr v \<Rightarrow> Inr v)))"

section \<open>Base64 of the platform\<close>

text \<open>
  \<^verbatim>\<open>btoa\<close> and \<^verbatim>\<open>atob\<close> are the browser's forgiving-base64 encode and decode. Sextets and
  bytes are natural numbers here; the alphabet is A-Z, a-z, 0-9, + and /, padded with =.
\<close>

definition b64_char :: "nat \<Rightarrow> 16 word" where
  "b64_char n =
     (if n < 26 then of_nat (65 + n)
      else if n < 52 then of_nat (97 + (n - 26))
      else if n < 62 then of_nat (48 + (n - 52))
      else if n = 62 then 0x2B
      else 0x2F)"

definition b64_pad :: "16 word" where
  "b64_pad = 0x3D"

definition b64_value :: "16 word \<Rightarrow> nat option" where
  "b64_value c =
     (if 0x41 \<le> c \<and> c \<le> 0x5A then Some (unat c - 65)
      else if 0x61 \<le> c \<and> c \<le> 0x7A then Some (unat c - 97 + 26)
      else if 0x30 \<le> c \<and> c \<le> 0x39 then Some (unat c - 48 + 52)
      else if c = 0x2B then Some 62
      else if c = 0x2F then Some 63
      else None)"

fun b64_encode :: "nat list \<Rightarrow> jsstring" where
  "b64_encode (a # b # c # rest) =
     b64_char (a div 4) # b64_char ((a mod 4) * 16 + b div 16)
       # b64_char ((b mod 16) * 4 + c div 64) # b64_char (c mod 64) # b64_encode rest"
| "b64_encode [a, b] =
     [b64_char (a div 4), b64_char ((a mod 4) * 16 + b div 16), b64_char ((b mod 16) * 4),
      b64_pad]"
| "b64_encode [a] = [b64_char (a div 4), b64_char ((a mod 4) * 16), b64_pad, b64_pad]"
| "b64_encode [] = []"

text \<open>\<^verbatim>\<open>btoa\<close> raises InvalidCharacterError on a code unit above 255.\<close>

definition btoa :: "jsstring \<Rightarrow> js_error + jsstring" where
  "btoa s =
     (if list_ex (\<lambda>c. 0xFF < c) s then Inl InvalidCharacterError
      else Inr (b64_encode (map unat s)))"

definition ascii_whitespace :: "16 word \<Rightarrow> bool" where
  "ascii_whitespace c = (c = 0x09 \<or> c = 0x0A \<or> c = 0x0C \<or> c = 0x0D \<or> c = 0x20)"

text \<open>One or two \<^verbatim>\<open>=\<close> at the end are removed.\<close>

fun strip_padding_rev :: "jsstring \<Rightarrow> jsstring" where
  "strip_padding_rev (p # q # r) =
     (if p = b64_pad \<and> q = b64_pad then r else if p = b64_pad then q # r else p # q # r)"
| "strip_padding_rev [p] = (if p = b64_pad then [] else [p])"
| "strip_padding_rev [] = []"

fun b64_decode :: "nat list \<Rightarrow> nat list" where
  "b64_decode (p # q # r # s # rest) =
     (p * 4 + q div 16) # ((q mod 16) * 16 + r div 4) # ((r mod 4) * 64 + s) # b64_decode rest"
| "b64_decode [p, q, r] = [p * 4 + q div 16, (q mod 16) * 16 + r div 4]"
| "b64_decode [p, q] = [p * 4 + q div 16]"
| "b64_decode [p] = []"
| "b64_decode [] = []"

text \<open>
  \<^verbatim>\<open>atob\<close>: ASCII white space is dropped; when the length is then a multiple of four, up
  to two padding characters are removed from the end; a length of one more than a multiple
  of four or a character outside the alphabet raises InvalidCharacterError; otherwise
  every four sextets give three bytes, and a rest of two or three sextets gives one or two
  bytes.
\<close>

definition atob :: "jsstring \<Rightarrow> js_error + jsstring" where
  "atob s =
     (let d = filter (\<lambda>c. \<not> ascii_whitespace c) s;
          d' = (if length d mod 4 = 0 then rev (strip_padding_rev (rev d)) else d)
      in if length d' mod 4 = 1 \<or> list_ex (\<lambda>c. b64_value c = None) d'
         then Inl InvalidCharacterError
         else Inr (map of_nat (b64_decode (map (\<lambda>c. the (b64_value c)) d'))))"

section \<open>Live tutor: PCM encoding and decoding\<close>

text \<open>
  An element of a \<^verbatim>\<open>Float32Array\<close>: a finite value (a real number), a NaN or an infinity.
  Multiplying a 32-bit float by 32768 in double precision is exact, and so is dividing a
  16-bit integer by 32768 and storing the quotient as a 32-bit float, so both are the
  operations on the reals.
\<close>

datatype float32 = Finite real | NaN | PosInf | NegInf

fun times_32768 :: "float32 \<Rightarrow> float32" where
  "times_32768 (Finite x) = Finite (x * 32768)"
| "times_32768 NaN = NaN"
| "times_32768 PosInf = PosInf"
| "times_32768 NegInf = NegInf"

definition trunc :: "real \<Rightarrow> int" where
  "trunc x = (if x < 0 then \<lceil>x\<rceil> else \<lfloor>x\<rfloor>)"

text \<open>
  Storing a number in an \<^verbatim>\<open>Int16Array\<close> (ToInt16): NaN and the infinities give 0, a finite
  number is truncated towards zero and taken modulo \<open>2 ^ 16\<close>.
\<close>

fun ToInt16 :: "float32 \<Rightarrow> 16 word" where
  "ToInt16 (Finite x) = word_of_int (trunc x)"
| "ToInt16 NaN = 0"
| "ToInt16 PosInf = 0"
| "ToInt16 NegInf = 0"

text \<open>
  \<^verbatim>\<open>new Uint8Array(int16.buffer)\<close> reads the same memory byte by byte. Typed arrays use the
  byte order of the host; the model is a little-endian host, low byte first.
\<close>

definition int16_bytes :: "16 word \<Rightarrow> 8 word list" where
  "int16_bytes w = [ucast w, ucast (drop_bit 8 w)]"

record Blob =
  mimeType :: jsstring
  data :: jsstring

text \<open>
  \<^verbatim>\<open>createBlob\<close>: the first loop fills \<^verbatim>\<open>int16\<close>, the second appends
  \<^verbatim>\<open>String.fromCharCode(uint8[i])\<close> to \<^verbatim>\<open>binary\<close>, then \<^verbatim>\<open>btoa\<close>.
\<close>

definition createBlob :: "float32 list \<Rightarrow> js_error + Blob" where
  "createBlob samples =
     (let int16 = map (\<lambda>x. ToInt16 (times_32768 x)) samples;
          uint8 = concat (map int16_bytes int16);
          binary = foldl (\<lambda>b u. b @ [ucast u]) [] uint8
      in case btoa binary of
           Inl e \<Rightarrow> Inl e
         | Inr base64 \<Rightarrow> Inr \<lparr>mimeType = js ''audio/pcm;rate=16000'', data = base64\<rparr>)"

text \<open>\<^verbatim>\<open>decode\<close>: \<^verbatim>\<open>bytes[i] = binary.charCodeAt(i)\<close> keeps the low eight bits.\<close>

definition decode :: "jsstring \<Rightarrow> js_error + 8 word list" where
  "decode base64 =
     (case atob base64 of
        Inl e \<Rightarrow> Inl e
      | Inr binary \<Rightarrow> Inr (map ucast binary))"

text \<open>\<^verbatim>\<open>new Int16Array(data.buffer)\<close> on a little-endian host.\<close>

fun int16_view :: "8 word list \<Rightarrow> 16 word list" where
  "int16_view (lo # hi # rest) = (ucast lo OR push_bit 8 (ucast hi)) # int16_view rest"
| "int16_view [lo] = []"
| "int16_view [] = []"

record AudioBuffer =
  sampleRate :: nat
  frames :: nat
  channelData :: "real list list"

definition duration :: "AudioBuffer \<Rightarrow> real" where
  "duration b = real (frames b) / real (sampleRate b)"

text \<open>
  \<^verbatim>\<open>decodeAudioData\<close>. The view raises RangeError on an odd number of bytes.
  \<^verbatim>\<open>ctx.createBuffer(channels, frameCount, rate)\<close> takes the integer part of
  \<^verbatim>\<open>frameCount\<close> as the length and raises NotSupportedError when the channel count or the
  length is zero. When \<^verbatim>\<open>channels\<close> does not divide the number of samples, the loop runs one
  index past the length; that write is outside the array and is ignored.
\<close>

definition decodeAudioData :: "8 word list \<Rightarrow> nat \<Rightarrow> nat \<Rightarrow> js_error + AudioBuffer" where
  "decodeAudioData bytes rate channels =
     (if odd (length bytes) then Inl RangeError
      else let dataInt16 = int16_view bytes;
               frameCount = length dataInt16 div channels
           in if channels = 0 \<or> frameCount = 0 then Inl NotSupportedError
              else Inr \<lparr>sampleRate = rate, frames = frameCount,
                        channelData =
                          map (\<lambda>c. map (\<lambda>i. real_of_int (sint (dataInt16 ! (i * channels + c)))
                                              / 32768)
                                        [0..<frameCount])
                              [0..<channels]\<rparr>)"

text \<open>
  The round trip of the claims: the base64 text of \<^verbatim>\<open>createBlob\<close> through \<^verbatim>\<open>decode\<close> and
  \<^verbatim>\<open>decodeAudioData\<close> with one channel.
\<close>

definition round_trip :: "nat \<Rightarrow> float32 list \<Rightarrow> js_error + AudioBuffer" where
  "round_trip rate samples =
     (case createBlob samples of
        Inl e \<Rightarrow> Inl e
      | Inr blob \<Rightarrow>
          (case decode (data blob) of
             Inl e \<Rightarrow> Inl e
           | Inr bytes \<Rightarrow> decodeAudioData bytes rate 1))"

text \<open>
  The encoding in the words of the specification: the sample times 32768, truncated, as a
  16-bit two's complement number, low byte first.
\<close>

definition pcm16_value :: "float32 \<Rightarrow> int" where
  "pcm16_value x =
     (case x of Finite r \<Rightarrow> (trunc (r * 32768) + 32768) mod 65536 - 32768 | _ \<Rightarrow> 0)"

definition pcm16le_bytes :: "float32 \<Rightarrow> nat list" where
  "pcm16le_bytes x =
     (let u = nat (pcm16_value x mod 65536) in [u mod 256, u div 256])"

section \<open>Live tutor: the session\<close>

text \<open>
  The component holds three pieces of React state (\<^verbatim>\<open>isConnected\<close>, \<^verbatim>\<open>error\<close>,
  \<^verbatim>\<open>isSpeaking\<close>) and five refs. Platform objects (session, audio context, buffer source,
  media stream) are known by a handle. \<^verbatim>\<open>sourcesRef\<close> is a \<^verbatim>\<open>Set\<close>, iterated in insertion
  order: a list without repetition. Times are seconds on the playback clock, taken as
  real numbers. \<open>calls\<close> is the log of the calls made to the platform, oldest first, and
  \<open>liveStreams\<close> the microphone streams handed out by \<^verbatim>\<open>getUserMedia\<close> whose tracks have not
  been stopped; the component has no statement that stops a track.

  Every handler runs to its end before the next one starts, a handler suspended at an
  \<^verbatim>\<open>await\<close> included. The platform calls of the handlers do not raise:
  \<^verbatim>\<open>close\<close> on an open session or context, and \<^verbatim>\<open>stop\<close> on a source that was started.
\<close>

type_synonym handle = nat

datatype call =
  NewAudioContext nat "handle option"
  | GetUserMedia
  | Connect
  | CaptureStart handle handle
  | SendRealtimeInput Blob
  | SessionClose handle
  | ContextClose handle
  | SourceStart handle real
  | SourceStop handle

record live =
  isConnected :: bool
  error :: jsstring
  isSpeaking :: bool
  inputContextRef :: "handle option"
  outputContextRef :: "handle option"
  sessionRef :: "handle option"
  nextStartTimeRef :: real
  sourcesRef :: "handle list"
  calls :: "call list"
  liveStreams :: "handle list"

text \<open>The state of a freshly mounted component.\<close>

definition initial_live :: live where
  "initial_live =
     \<lparr>isConnected = False, error = [], isSpeaking = False, inputContextRef = None,
      outputContextRef = None, sessionRef = None, nextStartTimeRef = 0, sourcesRef = [],
      calls = [], liveStreams = []\<rparr>"

definition set_add :: "handle \<Rightarrow> handle list \<Rightarrow> handle list" where
  "set_add x xs = (if List.member xs x then xs else xs @ [x])"

definition set_delete :: "handle \<Rightarrow> handle list \<Rightarrow> handle list" where
  "set_delete x xs = removeAll x xs"

definition stopSession :: "live \<Rightarrow> live" where
  "stopSession s =
     (let s1 = (case sessionRef s of
                  Some h \<Rightarrow> s\<lparr>calls := calls s @ [SessionClose h], sessionRef := None\<rparr>
                | None \<Rightarrow> s);
          s2 = (case inputContextRef s1 of
                  Some c \<Rightarrow> s1\<lparr>calls := calls s1 @ [ContextClose c], inputContextRef := None\<rparr>
                | None \<Rightarrow> s1);
          s3 = (case outputContextRef s2 of
                  Some c \<Rightarrow> s2\<lparr>calls := calls s2 @ [ContextClose c], outputContextRef := None\<rparr>
                | None \<Rightarrow> s2);
          s4 = s3\<lparr>calls := calls s3 @ map SourceStop (sourcesRef s3)\<rparr>;
          s5 = s4\<lparr>sourcesRef := []\<rparr>
      in s5\<lparr>isConnected := False, isSpeaking := False\<rparr>)"

text \<open>
  A server message, as far as the handler reads it: \<open>audio\<close> is
  \<^verbatim>\<open>msg.serverContent?.modelTurn?.parts?.[0]?.inlineData?.data\<close> (\<open>None\<close> for
  \<^verbatim>\<open>undefined\<close>) and \<open>interrupted\<close> is whether \<^verbatim>\<open>msg.serverContent?.interrupted\<close> is truthy.
\<close>

record ServerMessage =
  audio :: "jsstring option"
  interrupted :: bool

text \<open>\<^verbatim>\<open>decodeAudioData(decode(base64Audio), ctx, 24000, 1)\<close>\<close>

definition decode_chunk :: "jsstring \<Rightarrow> js_error + AudioBuffer" where
  "decode_chunk base64Audio =
     (case decode base64Audio of
        Inl e \<Rightarrow> Inl e
      | Inr bytes \<Rightarrow> decodeAudioData bytes 24000 1)"

text \<open>The second \<^verbatim>\<open>if\<close> of \<^verbatim>\<open>onmessage\<close>.\<close>

definition on_interrupted :: "ServerMessage \<Rightarrow> live \<Rightarrow> live" where
  "on_interrupted m s =
     (if interrupted m
      then s\<lparr>calls := calls s @ map SourceStop (sourcesRef s), sourcesRef := [],
             nextStartTimeRef := 0, isSpeaking := False\<rparr>
      else s)"

text \<open>
  \<^verbatim>\<open>onmessage\<close>: \<open>now\<close> is \<^verbatim>\<open>ctx.currentTime\<close> when the handler reads it and \<open>src\<close> the
  node that \<^verbatim>\<open>createBufferSource\<close> returns. The first component of the result is the
  exception with which the handler ends, if any; the state is the one it leaves behind.
  An empty string is falsy, so it is no audio.
\<close>

definition onmessage :: "real \<Rightarrow> handle \<Rightarrow> ServerMessage \<Rightarrow> live \<Rightarrow> js_error option \<times> live" where
  "onmessage now src m s =
     (case audio m of
        None \<Rightarrow> (None, on_interrupted m s)
      | Some base64Audio \<Rightarrow>
          if base64Audio = [] then (None, on_interrupted m s)
          else
            let s1 = s\<lparr>isSpeaking := True\<rparr> in
            (case outputContextRef s1 of
               None \<Rightarrow> (None, s1)
             | Some ctx \<Rightarrow>
                 let s2 = s1\<lparr>nextStartTimeRef := max (nextStartTimeRef s1) now\<rparr> in
                 (case decode_chunk base64Audio of
                    Inl e \<Rightarrow> (Some e, s2)
                  | Inr audioBuffer \<Rightarrow>
                      let s3 = s2\<lparr>calls := calls s2 @ [SourceStart src (nextStartTimeRef s2)]\<rparr>;
                          s4 = s3\<lparr>nextStartTimeRef := nextStartTimeRef s3 + duration audioBuffer\<rparr>;
                          s5 = s4\<lparr>sourcesRef := set_add src (sourcesRef s4)\<rparr>
                      in (None, on_interrupted m s5))))"

text \<open>The listener of a source's \<^verbatim>\<open>ended\<close> event.\<close>

definition onended :: "handle \<Rightarrow> live \<Rightarrow> live" where
  "onended src s =
     (let s1 = s\<lparr>sourcesRef := set_delete src (sourcesRef s)\<rparr>
      in if sourcesRef s1 = [] then s1\<lparr>isSpeaking := False\<rparr> else s1)"

definition onclose :: "live \<Rightarrow> live" where
  "onclose s = stopSession (s\<lparr>isConnected := False\<rparr>)"

definition onerror :: "live \<Rightarrow> live" where
  "onerror s = stopSession (s\<lparr>error := js ''Connection error.''\<rparr>)"

text \<open>
  \<^verbatim>\<open>onopen\<close> starts the capture on the input context and the stream that \<^verbatim>\<open>startSession\<close>
  holds in local variables.
\<close>

definition onopen :: "handle \<Rightarrow> handle \<Rightarrow> live \<Rightarrow> live" where
  "onopen inputCtx stream s =
     s\<lparr>isConnected := True, calls := calls s @ [CaptureStart inputCtx stream]\<rparr>"

text \<open>
  \<^verbatim>\<open>processor.onaudioprocess\<close>: one frame of samples gives one blob, which is sent once
  the session promise has resolved.
\<close>

definition onaudioprocess :: "float32 list \<Rightarrow> live \<Rightarrow> js_error option \<times> live" where
  "onaudioprocess inputData s =
     (case createBlob inputData of
        Inl e \<Rightarrow> (Some e, s)
      | Inr pcmBlob \<Rightarrow> (None, s\<lparr>calls := calls s @ [SendRealtimeInput pcmBlob]\<rparr>))"

fun capture_frames :: "float32 list list \<Rightarrow> live \<Rightarrow> live" where
  "capture_frames [] s = s"
| "capture_frames (f # fs) s = capture_frames fs (snd (onaudioprocess f s))"

text \<open>
  What the platform answers during \<^verbatim>\<open>startSession\<close>. The two
  \<^verbatim>\<open>new AudioContextClass(...)\<close> run one after the other, before either ref is assigned:
  both succeed, the first one raises (the second is then never called), or the first
  succeeds and the second raises. \<^verbatim>\<open>getUserMedia\<close> resolves with a stream or is rejected.
  The connection opens (\<^verbatim>\<open>onopen\<close> runs and the promise resolves), the promise is rejected,
  or the \<^verbatim>\<open>onerror\<close> callback runs while the promise stays pending. The log entry
  \<open>NewAudioContext rate r\<close> records a constructor call and the context it returned
  (\<open>None\<close> when it raised).
\<close>

datatype context_outcome =
  ContextsCreated handle handle | FirstContextFails | SecondContextFails handle

datatype connect_outcome = SessionOpened handle | ConnectRejected | ConnectError

record start_env =
  audioContexts :: context_outcome
  microphone :: "handle option"
  connection :: connect_outcome

text \<open>The \<^verbatim>\<open>catch\<close> block of \<^verbatim>\<open>startSession\<close>.\<close>

definition start_failed :: "live \<Rightarrow> live" where
  "start_failed s = stopSession (s\<lparr>error := js ''Failed to access microphone or connect.''\<rparr>)"

definition startSession :: "start_env \<Rightarrow> live \<Rightarrow> live" where
  "startSession env s =
     (let s0 = s\<lparr>error := []\<rparr> in
      case audioContexts env of
        FirstContextFails \<Rightarrow>
          start_failed (s0\<lparr>calls := calls s0 @ [NewAudioContext 16000 None]\<rparr>)
      | SecondContextFails inputCtx \<Rightarrow>
          start_failed (s0\<lparr>calls := calls s0 @ [NewAudioContext 16000 (Some inputCtx),
                                                   NewAudioContext 24000 None]\<rparr>)
      | ContextsCreated inputCtx outputCtx \<Rightarrow>
          let s1 = s0\<lparr>calls := calls s0 @ [NewAudioContext 16000 (Some inputCtx),
                                            NewAudioContext 24000 (Some outputCtx)],
                      inputContextRef := Some inputCtx, outputContextRef := Some outputCtx\<rparr>;
              s2 = s1\<lparr>calls := calls s1 @ [GetUserMedia]\<rparr>
          in (case microphone env of
                None \<Rightarrow> start_failed s2
              | Some stream \<Rightarrow>
                  let s3 = s2\<lparr>liveStreams := liveStreams s2 @ [stream],
                              calls := calls s2 @ [Connect]\<rparr>
                  in (case connection env of
                        ConnectRejected \<Rightarrow> start_failed s3
                      | ConnectError \<Rightarrow> onerror s3
                      | SessionOpened session \<Rightarrow>
                          (onopen inputCtx stream s3)\<lparr>sessionRef := Some session\<rparr>)))"

text \<open>Vocabulary of the statements below.\<close>

definition Disconnected :: "live \<Rightarrow> bool" where
  "Disconnected s =
     (isConnected s = False \<and> isSpeaking s = False \<and> sessionRef s = None \<and>
      inputContextRef s = None \<and> outputContextRef s = None \<and> sourcesRef s = [])"

fun occurs_before :: "call \<Rightarrow> call \<Rightarrow> call list \<Rightarrow> bool" where
  "occurs_before a b [] = False"
| "occurs_before a b (c # cs) =
     (if c = a then List.member cs b else if c = b then False else occurs_before a b cs)"

fun start_times :: "call list \<Rightarrow> real list" where
  "start_times [] = []"
| "start_times (SourceStart src t # cs) = t # start_times cs"
| "start_times (c # cs) = start_times cs"

fun handle_messages :: "(real \<times> handle \<times> ServerMessage) list \<Rightarrow> live \<Rightarrow> live" where
  "handle_messages [] s = s"
| "handle_messages ((now, src, m) # ms) s = handle_messages ms (snd (onmessage now src m s))"

text \<open>
  A message that carries a chunk which decodes, and no interruption; and the duration of
  its buffer.
\<close>

definition plays :: "ServerMessage \<Rightarrow> bool" where
  "plays m =
     (case audio m of
        None \<Rightarrow> False
      | Some b \<Rightarrow> b \<noteq> [] \<and> isl (decode_chunk b) = False \<and> interrupted m = False)"

definition chunk_duration :: "ServerMessage \<Rightarrow> real" where
  "chunk_duration m =
     (case audio m of
        None \<Rightarrow> 0
      | Some b \<Rightarrow> (case decode_chunk b of Inl e \<Rightarrow> 0 | Inr buf \<Rightarrow> duration buf))"

text \<open>The object behind a ref, if any, as a list.\<close>

definition held :: "'a option \<Rightarrow> 'a list" where
  "held r = (case r of None \<Rightarrow> [] | Some x \<Rightarrow> [x])"

section \<open>Auxiliary definitions for the proofs\<close>

text \<open>
  The sextets of a byte sequence without the alphabet and the padding, and the padding
  that \<open>b64_encode\<close> appends.
\<close>

fun sextets :: "nat list \<Rightarrow> nat list" where
  "sextets (a # b # c # rest) =
     a div 4 # ((a mod 4) * 16 + b div 16) # ((b mod 16) * 4 + c div 64) # c mod 64 # sextets rest"
| "sextets [a, b] = [a div 4, (a mod 4) * 16 + b div 16, (b mod 16) * 4]"
| "sextets [a] = [a div 4, (a mod 4) * 16]"
| "sextets [] = []"

definition padding :: "nat list \<Rightarrow> jsstring" where
  "padding bs = replicate ((3 - length bs mod 3) mod 3) b64_pad"

text \<open>The bytes that \<^verbatim>\<open>createBlob\<close> hands to \<^verbatim>\<open>btoa\<close>.\<close>

definition pcm_bytes :: "float32 list \<Rightarrow> 8 word list" where
  "pcm_bytes samples = concat (map int16_bytes (map (\<lambda>x. ToInt16 (times_32768 x)) samples))"

text \<open>
  A finite sample from -1 up to, but not including, 1; and the value of a finite sample.
\<close>

definition below_full_scale :: "float32 \<Rightarrow> bool" where
  "below_full_scale x = (case x of Finite r \<Rightarrow> - 1 \<le> r \<and> r < 1 | _ \<Rightarrow> False)"

definition sample_value :: "float32 \<Rightarrow> real" where
  "sample_value x = (case x of Finite r \<Rightarrow> r | _ \<Rightarrow> 0)"

text \<open>
  Microphone acquisition or connection establishment fails: \<^verbatim>\<open>getUserMedia\<close> is rejected,
  or the connection promise is rejected, or the \<^verbatim>\<open>onerror\<close> callback runs.
\<close>

definition start_fails :: "start_env \<Rightarrow> bool" where
  "start_fails env =
     (microphone env = None \<or> connection env = ConnectRejected \<or> connection env = ConnectError)"

text \<open>The start times that the scheduling rule gives from a cursor.\<close>

fun starts_from :: "real \<Rightarrow> (real \<times> handle \<times> ServerMessage) list \<Rightarrow> real list" where
  "starts_from c [] = []"
| "starts_from c ((now, src, m) # ms) = max c now # starts_from (max c now + chunk_duration m) ms"

section \<open>Properties of the exam list\<close>

lemma filter_index_skip:
  "idx < i \<Longrightarrow> filter_index i idx xs = xs"
  by (induction xs arbitrary: i) auto

lemma filter_index_removes:
  "i \<le> idx \<Longrightarrow> idx < i + length xs \<Longrightarrow>
   filter_index i idx xs = take (idx - i) xs @ drop (Suc (idx - i)) xs"
proof (induction xs arbitrary: i)
  case Nil
  then show ?case by simp
next
  case (Cons x xs)
  show ?case
  proof (cases "i = idx")
    case True
    then show ?thesis by (simp add: filter_index_skip)
  next
    case False
    with Cons.prems have lt: "Suc i \<le> idx" and bd: "idx < Suc i + length xs" by auto
    from lt have eq: "idx - i = Suc (idx - Suc i)" by simp
    from False Cons.IH [OF lt bd] show ?thesis by (simp add: eq)
  qed
qed

lemma filter_index_keeps_other:
  "filter_index i idx xs \<noteq> [] \<or> length xs \<le> 1"
proof (cases xs)
  case Nil
  then show ?thesis by simp
next
  case (Cons x ys)
  show ?thesis
  proof (cases ys)
    case Nil
    with Cons show ?thesis by simp
  next
    case (Cons y zs)
    with \<open>xs = x # ys\<close> show ?thesis by auto
  qed
qed

text \<open>
  C8: the exam list is never empty. \<^verbatim>\<open>removeExam\<close> on more than one exam removes exactly
  the exam at the index and keeps the others in order, on a single exam it leaves one blank
  entry \<^verbatim>\<open>{name: '', date: ''}\<close>; its result, and that of \<^verbatim>\<open>addExam\<close> and \<^verbatim>\<open>updateExam\<close>,
  is never empty, and the list starts as one blank entry.
\<close>

theorem removeExam_never_empty:
  "initial_exams \<noteq> [] \<and>
   removeExam idx exams \<noteq> [] \<and>
   (length exams > 1 \<and> idx < length exams \<longrightarrow>
      removeExam idx exams = take idx exams @ drop (Suc idx) exams \<and>
      length (removeExam idx exams) = length exams - 1) \<and>
   (length exams = 1 \<longrightarrow> removeExam idx exams = [\<lparr>name = [], date = []\<rparr>]) \<and>
   addExam exams \<noteq> [] \<and>
   (exams \<noteq> [] \<and> updateExam idx field v exams = Some exams' \<longrightarrow> exams' \<noteq> [])"
proof -
  have a: "initial_exams \<noteq> []"
    by (simp add: initial_exams_def)
  have b: "removeExam idx exams \<noteq> []"
    using filter_index_keeps_other [of 0 idx exams] by (auto simp: removeExam_def)
  have c: "removeExam idx exams = take idx exams @ drop (Suc idx) exams
     \<and> length (removeExam idx exams) = length exams - 1"
    if "length exams > 1 \<and> idx < length exams"
    using that filter_index_removes [of 0 idx exams] by (auto simp: removeExam_def)
  have d: "removeExam idx exams = [\<lparr>name = [], date = []\<rparr>]" if "length exams = 1"
    using that by (simp add: removeExam_def blank_exam_def)
  have e: "addExam exams \<noteq> []"
    by (simp add: addExam_def)
  have f: "exams' \<noteq> []" if "exams \<noteq> [] \<and> updateExam idx field v exams = Some exams'"
    using that by (auto simp: updateExam_def split: if_splits)
  from a b c d e f show ?thesis by blast
qed

theorem removeExam_never_empty_witness:
  "removeExam 1 [\<lparr>name = js ''Math'', date = js ''2025-01-10''\<rparr>,
                 \<lparr>name = js ''Physics'', date = js ''2025-01-12''\<rparr>,
                 \<lparr>name = js ''Bangla'', date = js ''2025-01-15''\<rparr>]
     = [\<lparr>name = js ''Math'', date = js ''2025-01-10''\<rparr>, \<lparr>name = js ''Bangla'', date = js ''2025-01-15''\<rparr>]
   \<and> removeExam 0 [\<lparr>name = js ''Math'', date = js ''2025-01-10''\<rparr>] = [\<lparr>name = [], date = []\<rparr>]"
  using removeExam_never_empty
          [of 1 "[\<lparr>name = js ''Math'', date = js ''2025-01-10''\<rparr>,
                  \<lparr>name = js ''Physics'', date = js ''2025-01-12''\<rparr>,
                  \<lparr>name = js ''Bangla'', date = js ''2025-01-15''\<rparr>]"]
        removeExam_never_empty [of 0 "[\<lparr>name = js ''Math'', date = js ''2025-01-10''\<rparr>]"]
  by simp

section \<open>Properties of the quiz history\<close>

lemma score_loop_enumerate:
  "score_loop ans idx qs sc =
     sc + length (filter (\<lambda>(i, q). ans i = Some (correctAnswer q)) (enumerate idx qs))"
  by (induction qs arbitrary: idx sc) auto

lemma calculateScore_card:
  "calculateScore s =
     card {idx. idx < length (quiz s) \<and> answers s idx = Some (correctAnswer (quiz s ! idx))}"
proof -
  have "calculateScore s =
      length (filter (\<lambda>(i, q). answers s i = Some (correctAnswer q)) (enumerate 0 (quiz s)))"
    by (simp add: calculateScore_def score_loop_enumerate)
  also have "\<dots> = card {i. i < length (enumerate 0 (quiz s)) \<and>
      (\<lambda>(i, q). answers s i = Some (correctAnswer q)) (enumerate 0 (quiz s) ! i)}"
    by (rule length_filter_conv_card)
  also have "{i. i < length (enumerate 0 (quiz s)) \<and>
      (\<lambda>(i, q). answers s i = Some (correctAnswer q)) (enumerate 0 (quiz s) ! i)}
      = {idx. idx < length (quiz s) \<and> answers s idx = Some (correctAnswer (quiz s ! idx))}"
    by (auto simp: nth_enumerate_eq)
  finally show ?thesis .
qed

lemma history_finishQuiz:
  "history (finishQuiz today s) = take 10 (quiz_result today s # history s)"
  by (simp add: finishQuiz_def quiz_result_def Let_def)

lemma quiz_result_history_update [simp]:
  "quiz_result today (s\<lparr>history := h\<rparr>) = quiz_result today s"
  by (simp add: quiz_result_def calculateScore_def)

lemma take_append_take:
  "take n (xs @ take n ys) = take n (xs @ ys)"
  by (simp add: min_def)

lemma finish_rounds_newest_first:
  "rs \<noteq> [] \<Longrightarrow>
   finish_rounds rs h = take 10 (rev (map (\<lambda>(today, s). quiz_result today s) rs) @ h)"
proof (induction rs arbitrary: h)
  case Nil
  then show ?case by simp
next
  case (Cons r rs)
  obtain today s where r: "r = (today, s)" by (cases r)
  show ?case
  proof (cases "rs = []")
    case True
    with r show ?thesis by (simp add: history_finishQuiz)
  next
    case False
    let ?f = "\<lambda>(today, s). quiz_result today s"
    have "finish_rounds (r # rs) h = finish_rounds rs (take 10 (quiz_result today s # h))"
      using r by (simp add: history_finishQuiz)
    also have "\<dots> = take 10 (rev (map ?f rs) @ take 10 (quiz_result today s # h))"
      by (rule Cons.IH [OF False])
    also have "\<dots> = take 10 (rev (map ?f rs) @ quiz_result today s # h)"
      by (rule take_append_take)
    also have "rev (map ?f rs) @ quiz_result today s # h = rev (map ?f (r # rs)) @ h"
      using r by simp
    finally show ?thesis .
  qed
qed

text \<open>
  C9: \<^verbatim>\<open>finishQuiz\<close> puts the new result in front of the history and keeps the first ten
  entries; the score of that result is the number of questions whose stored answer equals
  \<^verbatim>\<open>correctAnswer\<close>. After any non-empty sequence of finished quizzes the history is the
  ten newest results, newest first (older entries of the starting history fill what is left).
\<close>

theorem finishQuiz_history_bounded:
  "history (finishQuiz today s) = take 10 (quiz_result today s # history s) \<and>
   score (quiz_result today s) =
     card {idx. idx < length (quiz s) \<and> answers s idx = Some (correctAnswer (quiz s ! idx))} \<and>
   total (quiz_result today s) = length (quiz s) \<and>
   length (history (finishQuiz today s)) \<le> 10 \<and>
   (rs \<noteq> [] \<longrightarrow>
      finish_rounds rs h = take 10 (rev (map (\<lambda>(today, s). quiz_result today s) rs) @ h) \<and>
      length (finish_rounds rs h) \<le> 10)"
proof -
  have "length (history (finishQuiz today s)) \<le> 10"
    by (simp add: history_finishQuiz)
  moreover have "score (quiz_result today s) =
     card {idx. idx < length (quiz s) \<and> answers s idx = Some (correctAnswer (quiz s ! idx))}"
    by (simp add: quiz_result_def calculateScore_card)
  moreover have "total (quiz_result today s) = length (quiz s)"
    by (simp add: quiz_result_def)
  moreover have "length (finish_rounds rs h) \<le> 10" if "rs \<noteq> []"
    by (simp add: finish_rounds_newest_first [OF that])
  ultimately show ?thesis
    using history_finishQuiz finish_rounds_newest_first by blast
qed

theorem finishQuiz_history_bounded_witness:
  "[(js ''3/11/2026'',
     \<lparr>topic = js ''Algebra'', difficulty = js ''Easy'', view = QUIZ,
      quiz = [\<lparr>question = js ''1+1'', options = [js ''2'', js ''3''], correctAnswer = js ''2'',
                explanation = js ''sum''\<rparr>,
              \<lparr>question = js ''2*3'', options = [js ''5'', js ''6''], correctAnswer = js ''6'',
                explanation = js ''product''\<rparr>],
      answers = [0 \<mapsto> js ''2'', 1 \<mapsto> js ''5''], history = []\<rparr>)] \<noteq> [] \<and>
   finish_rounds
     [(js ''3/11/2026'',
       \<lparr>topic = js ''Algebra'', difficulty = js ''Easy'', view = QUIZ,
        quiz = [\<lparr>question = js ''1+1'', options = [js ''2'', js ''3''], correctAnswer = js ''2'',
                  explanation = js ''sum''\<rparr>,
                \<lparr>question = js ''2*3'', options = [js ''5'', js ''6''], correctAnswer = js ''6'',
                  explanation = js ''product''\<rparr>],
        answers = [0 \<mapsto> js ''2'', 1 \<mapsto> js ''5''], history = []\<rparr>)] []
   = [\<lparr>result_date = js ''3/11/2026'', result_topic = js ''Algebra'', score = 1, total = 2,
        result_difficulty = js ''Easy''\<rparr>]"
  using finishQuiz_history_bounded
    [of _ _ "[(js ''3/11/2026'',
       \<lparr>topic = js ''Algebra'', difficulty = js ''Easy'', view = QUIZ,
        quiz = [\<lparr>question = js ''1+1'', options = [js ''2'', js ''3''], correctAnswer = js ''2'',
                  explanation = js ''sum''\<rparr>,
                \<lparr>question = js ''2*3'', options = [js ''5'', js ''6''], correctAnswer = js ''6'',
                  explanation = js ''product''\<rparr>],
        answers = [0 \<mapsto> js ''2'', 1 \<mapsto> js ''5''], history = []\<rparr>)]" "[]"]
  by (simp add: quiz_result_def calculateScore_def js_def)

section \<open>Properties of quiz generation\<close>

text \<open>
  C10: \<^verbatim>\<open>generateQuiz\<close> does not raise on the model's output. Whatever the text of the
  answer and whatever \<^verbatim>\<open>JSON.parse\<close> does with it, the promise is fulfilled; when the text is
  absent or empty, or when the text cleaned by \<^verbatim>\<open>cleanJSON\<close> fails to parse, the result is the
  empty list.
\<close>

theorem generateQuiz_malformed:
  "(\<exists>v. generateQuiz JSON_parse (Inr text) = Inr v) \<and>
   (text = None \<or> text = Some [] \<longrightarrow> generateQuiz JSON_parse (Inr text) = Inr (JArray [])) \<and>
   (text = Some t \<and> t \<noteq> [] \<and> isl (JSON_parse (cleanJSON t)) \<longrightarrow>
      generateQuiz JSON_parse (Inr text) = Inr (JArray []))"
proof -
  have 1: "\<exists>v. generateQuiz JSON_parse (Inr text) = Inr v"
    by (simp add: generateQuiz_def split: option.splits sum.splits)
  have 2: "generateQuiz JSON_parse (Inr text) = Inr (JArray [])" if "text = None \<or> text = Some []"
    using that by (auto simp: generateQuiz_def)
  have 3: "generateQuiz JSON_parse (Inr text) = Inr (JArray [])"
    if "text = Some t \<and> t \<noteq> [] \<and> isl (JSON_parse (cleanJSON t))"
    using that by (auto simp: generateQuiz_def isl_def)
  from 1 2 3 show ?thesis by blast
qed

theorem generateQuiz_malformed_witness:
  "cleanJSON (js ''```json [oops ```'') = js ''[oops'' \<and>
   isl ((\<lambda>s. if s = js ''[]'' then Inr (JArray []) else Inl SyntaxError)
          (cleanJSON (js ''```json [oops ```''))) \<and>
   generateQuiz (\<lambda>s. if s = js ''[]'' then Inr (JArray []) else Inl SyntaxError)
     (Inr (Some (js ''```json [oops ```''))) = Inr (JArray [])"
proof -
  have c: "cleanJSON (js ''```json [oops ```'') = js ''[oops''"
    by (simp add: cleanJSON_def replace_leading_def replace_trailing_fence_def trim_def
        is_space_def js_def)
  then have h: "js ''```json [oops ```'' \<noteq> [] \<and>
     isl ((\<lambda>s. if s = js ''[]'' then Inr (JArray []) else Inl SyntaxError)
          (cleanJSON (js ''```json [oops ```'')))"
    by (simp add: js_def)
  from c h generateQuiz_malformed
    [of "\<lambda>s. if s = js ''[]'' then Inr (JArray []) else Inl SyntaxError"
        "Some (js ''```json [oops ```'')" "js ''```json [oops ```''"]
  show ?thesis by simp
qed

section \<open>Base64: decoding inverts encoding\<close>

lemma padding_step: "padding (a # b # c # rest) = padding rest"
  by (simp add: padding_def)

lemma b64_encode_sextets: "b64_encode bs = map b64_char (sextets bs) @ padding bs"
proof (induction bs rule: b64_encode.induct)
  case (1 a b c rest)
  then show ?case by (simp add: padding_step)
qed (simp_all add: padding_def numeral_2_eq_2)

lemma length_sextets: "length (sextets bs) mod 4 \<noteq> 1"
  by (induction bs rule: sextets.induct) simp_all

lemma sextet_bounds:
  fixes a b c :: nat
  assumes "a < 256" "b < 256" "c < 256"
  shows "a div 4 < 64" "(a mod 4) * 16 + b div 16 < 64" "(b mod 16) * 4 + c div 64 < 64"
    "c mod 64 < 64" "(b mod 16) * 4 < 64" "(a mod 4) * 16 < 64"
proof -
  have "a mod 4 < 4" "b mod 16 < 16" by simp_all
  moreover from assms have "a div 4 < 64" "b div 16 < 16" "c div 64 < 4"
    by (simp_all add: less_mult_imp_div_less)
  ultimately show "a div 4 < 64" "(a mod 4) * 16 + b div 16 < 64"
    "(b mod 16) * 4 + c div 64 < 64" "c mod 64 < 64" "(b mod 16) * 4 < 64" "(a mod 4) * 16 < 64"
    by linarith+
qed

lemma sextet_join:
  fixes a b c :: nat
  assumes "b < 256" "c < 256"
  shows "a div 4 * 4 + ((a mod 4) * 16 + b div 16) div 16 = a"
    "(((a mod 4) * 16 + b div 16) mod 16) * 16 + ((b mod 16) * 4 + c div 64) div 4 = b"
    "(((b mod 16) * 4 + c div 64) mod 4) * 64 + c mod 64 = c"
    "(((a mod 4) * 16 + b div 16) mod 16) * 16 + ((b mod 16) * 4) div 4 = b"
    "a div 4 * 4 + ((a mod 4) * 16) div 16 = a"
proof -
  from assms have bd: "b div 16 < 16" and cd: "c div 64 < 4"
    by (simp_all add: less_mult_imp_div_less)
  have 1: "((a mod 4) * 16 + b div 16) div 16 = a mod 4"
    using bd by simp
  have 2: "((a mod 4) * 16 + b div 16) mod 16 = b div 16"
    using bd by simp
  have 3: "((b mod 16) * 4 + c div 64) div 4 = b mod 16"
    using cd by simp
  have 4: "((b mod 16) * 4 + c div 64) mod 4 = c div 64"
    using cd by simp
  show "a div 4 * 4 + ((a mod 4) * 16 + b div 16) div 16 = a"
    unfolding 1 by simp
  show "(((a mod 4) * 16 + b div 16) mod 16) * 16 + ((b mod 16) * 4 + c div 64) div 4 = b"
    unfolding 2 3 by simp
  show "(((b mod 16) * 4 + c div 64) mod 4) * 64 + c mod 64 = c"
    unfolding 4 by simp
  show "(((a mod 4) * 16 + b div 16) mod 16) * 16 + ((b mod 16) * 4) div 4 = b"
    unfolding 2 by simp
  show "a div 4 * 4 + ((a mod 4) * 16) div 16 = a"
    by simp
qed

lemma sextets_bound:
  "list_all (\<lambda>b. b < 256) bs \<Longrightarrow> list_all (\<lambda>x. x < 64) (sextets bs)"
proof (induction bs rule: sextets.induct)
  case (1 a b c rest)
  then have p: "a < 256" "b < 256" "c < 256" and r: "list_all (\<lambda>x. x < 64) (sextets rest)"
    by simp_all
  show ?case
    by (simp only: sextets.simps list.pred_inject sextet_bounds [OF p] r simp_thms)
next
  case (2 a b)
  then have p: "a < 256" "b < 256" "(0::nat) < 256" by simp_all
  show ?case
    by (simp only: sextets.simps list.pred_inject sextet_bounds [OF p] simp_thms)
next
  case (3 a)
  then have p: "a < 256" "(0::nat) < 256" "(0::nat) < 256" by simp_all
  show ?case
    by (simp only: sextets.simps list.pred_inject sextet_bounds [OF p] simp_thms)
next
  case 4
  show ?case by simp
qed

lemma b64_decode_sextets:
  "list_all (\<lambda>b. b < 256) bs \<Longrightarrow> b64_decode (sextets bs) = bs"
proof (induction bs rule: sextets.induct)
  case (1 a b c rest)
  then have p: "b < 256" "c < 256" and r: "b64_decode (sextets rest) = rest"
    by simp_all
  show ?case
    by (simp only: sextets.simps b64_decode.simps sextet_join [OF p] r)
next
  case (2 a b)
  then have p: "b < 256" "(0::nat) < 256" by simp_all
  show ?case
    by (simp only: sextets.simps b64_decode.simps sextet_join [OF p])
next
  case (3 a)
  have p: "(0::nat) < 256" "(0::nat) < 256" by simp_all
  show ?case
    by (simp only: sextets.simps b64_decode.simps sextet_join [OF p])
next
  case 4
  show ?case by simp
qed

lemma unat_of_nat16: "n < 65536 \<Longrightarrow> unat (of_nat n :: 16 word) = n"
  by (simp add: unat_of_nat)

lemma b64_char_cases:
  assumes "n < 64"
  shows "b64_value (b64_char n) = Some n" "\<not> ascii_whitespace (b64_char n)"
    "b64_char n \<noteq> b64_pad"
proof -
  consider "n < 26" | "26 \<le> n" "n < 52" | "52 \<le> n" "n < 62" | "n = 62" | "n = 63"
    using assms by linarith
  then have "b64_value (b64_char n) = Some n \<and> \<not> ascii_whitespace (b64_char n) \<and>
    b64_char n \<noteq> b64_pad"
  proof cases
    case 1
    then have u: "unat (of_nat (65 + n) :: 16 word) = 65 + n" by (intro unat_of_nat16) linarith
    have c: "b64_char n = of_nat (65 + n)" using 1 by (simp add: b64_char_def)
    show ?thesis
      unfolding c b64_value_def ascii_whitespace_def b64_pad_def
      using u 1 by (simp add: word_le_nat_alt word_unat_eq_iff del: of_nat_add)
  next
    case 2
    then have u: "unat (of_nat (97 + (n - 26)) :: 16 word) = 97 + (n - 26)"
      by (intro unat_of_nat16) linarith
    have c: "b64_char n = of_nat (97 + (n - 26))" using 2 by (simp add: b64_char_def)
    show ?thesis
      unfolding c b64_value_def ascii_whitespace_def b64_pad_def
      using u 2 by (simp add: word_le_nat_alt word_unat_eq_iff del: of_nat_add)
  next
    case 3
    then have u: "unat (of_nat (48 + (n - 52)) :: 16 word) = 48 + (n - 52)"
      by (intro unat_of_nat16) linarith
    have c: "b64_char n = of_nat (48 + (n - 52))" using 3 by (simp add: b64_char_def)
    show ?thesis
      unfolding c b64_value_def ascii_whitespace_def b64_pad_def
      using u 3 by (simp add: word_le_nat_alt word_unat_eq_iff del: of_nat_add) arith
  next
    case 4
    then show ?thesis
      by (simp add: b64_char_def b64_value_def ascii_whitespace_def b64_pad_def)
  next
    case 5
    then show ?thesis
      by (simp add: b64_char_def b64_value_def ascii_whitespace_def b64_pad_def)
  qed
  then show "b64_value (b64_char n) = Some n" "\<not> ascii_whitespace (b64_char n)"
    "b64_char n \<noteq> b64_pad"
    by simp_all
qed

lemma pad_facts: "\<not> ascii_whitespace b64_pad" "b64_value b64_pad = None"
  by (simp_all add: ascii_whitespace_def b64_pad_def b64_value_def)

lemma padding_length: "\<exists>k\<le>2. padding bs = replicate k b64_pad"
proof -
  have "(3 - length bs mod 3) mod 3 \<le> 2" by arith
  then show ?thesis unfolding padding_def by blast
qed

lemma length_b64_encode: "length (b64_encode bs) mod 4 = 0"
  by (induction bs rule: b64_encode.induct) simp_all

lemma strip_padding_rev_replicate:
  assumes "b64_pad \<notin> set ys" "k \<le> 2"
  shows "strip_padding_rev (replicate k b64_pad @ ys) = ys"
proof -
  from assms(2) consider "k = 0" | "k = 1" | "k = 2" by linarith
  then show ?thesis
  proof cases
    case 1
    show ?thesis
    proof (cases ys)
      case Nil
      with 1 show ?thesis by simp
    next
      case (Cons p r)
      with assms(1) have "p \<noteq> b64_pad" by auto
      with Cons 1 show ?thesis by (cases r) simp_all
    qed
  next
    case 2
    show ?thesis
    proof (cases ys)
      case Nil
      with 2 show ?thesis by simp
    next
      case (Cons q r)
      with assms(1) have "q \<noteq> b64_pad" by auto
      with Cons 2 show ?thesis by simp
    qed
  next
    case 3
    then show ?thesis by (simp add: numeral_2_eq_2)
  qed
qed

lemma strip_padding:
  assumes "b64_pad \<notin> set xs" "k \<le> 2"
  shows "rev (strip_padding_rev (rev (xs @ replicate k b64_pad))) = xs"
proof -
  have "b64_pad \<notin> set (rev xs)" using assms(1) by simp
  from strip_padding_rev_replicate [OF this assms(2)] show ?thesis by simp
qed

lemma atob_b64_encode:
  assumes "list_all (\<lambda>b. b < 256) bs"
  shows "atob (b64_encode bs) = Inr (map of_nat bs)"
proof -
  let ?sx = "map b64_char (sextets bs)"
  have sx: "\<forall>c\<in>set ?sx. b64_value c \<noteq> None \<and> \<not> ascii_whitespace c \<and> c \<noteq> b64_pad"
    using sextets_bound [OF assms] by (auto simp: list_all_iff b64_char_cases)
  obtain k where k: "k \<le> 2" "padding bs = replicate k b64_pad"
    using padding_length by blast
  have enc: "b64_encode bs = ?sx @ replicate k b64_pad"
    by (simp add: b64_encode_sextets k)
  have f: "filter (\<lambda>c. \<not> ascii_whitespace c) (b64_encode bs) = b64_encode bs"
    unfolding enc using sx pad_facts by (auto intro!: filter_True)
  have nopad: "b64_pad \<notin> set ?sx" using sx by blast
  have st: "rev (strip_padding_rev (rev (b64_encode bs))) = ?sx"
    unfolding enc by (rule strip_padding [OF nopad k(1)])
  have len: "length ?sx mod 4 \<noteq> 1" using length_sextets [of bs] by simp
  have ok: "\<not> list_ex (\<lambda>c. b64_value c = None) ?sx"
    using sx by (auto simp: list_ex_iff)
  have vals: "map ((\<lambda>c. the (b64_value c)) \<circ> b64_char) (sextets bs) = sextets bs"
    using sextets_bound [OF assms] by (auto simp: list_all_iff b64_char_cases intro!: map_idI)
  show ?thesis
    unfolding atob_def f Let_def
    using len ok by (simp add: length_b64_encode st vals b64_decode_sextets [OF assms])
qed

lemma btoa_atob:
  assumes "list_all (\<lambda>c. c \<le> 0xFF) s"
  shows "btoa s = Inr (b64_encode (map unat s))" "atob (b64_encode (map unat s)) = Inr s"
proof -
  have 1: "\<not> list_ex (\<lambda>c. 0xFF < c) s"
    using assms by (auto simp: list_all_iff list_ex_iff)
  then show "btoa s = Inr (b64_encode (map unat s))" by (simp add: btoa_def)
  have 2: "list_all (\<lambda>b. b < 256) (map unat s)"
    using assms by (auto simp: list_all_iff word_le_nat_alt)
  have "map of_nat (map unat s) = s" by (simp add: map_idI)
  with atob_b64_encode [OF 2] show "atob (b64_encode (map unat s)) = Inr s" by simp
qed

section \<open>Properties of the PCM encoder and decoder\<close>

lemma binary_loop: "foldl (\<lambda>b u. b @ [f u]) acc us = acc @ map f us"
  by (induction us arbitrary: acc) simp_all

lemma unat_byte_less: "unat (u :: 8 word) < 256"
proof -
  have "unat u < 2 ^ LENGTH(8)" by (rule unsigned_less)
  then show ?thesis by simp
qed

lemma unat_ucast_byte: "unat (ucast (u :: 8 word) :: 16 word) = unat u"
  using unat_byte_less [of u] by (simp add: unsigned_ucast_eq take_bit_nat_eq_self_iff)

lemma ucast_byte_le: "(ucast (u :: 8 word) :: 16 word) \<le> 0xFF"
  using unat_byte_less [of u] by (simp add: word_le_nat_alt unat_ucast_byte)

lemma ucast_ucast_byte: "(ucast (ucast (u :: 8 word) :: 16 word) :: 8 word) = u"
  by (rule bit_word_eqI) (auto simp add: bit_simps)

lemma int16_of_bytes: "ucast (ucast w :: 8 word) OR push_bit 8 (ucast (ucast (drop_bit 8 w) :: 8 word)) = (w :: 16 word)"
  by (rule bit_word_eqI) (auto simp add: bit_simps)

lemma createBlob_data:
  "createBlob samples =
     Inr \<lparr>mimeType = js ''audio/pcm;rate=16000'',
          data = b64_encode (map unat (pcm_bytes samples))\<rparr>"
proof -
  let ?binary = "map ucast (pcm_bytes samples) :: jsstring"
  have "list_all (\<lambda>c. c \<le> 0xFF) ?binary"
    by (simp add: list_all_iff ucast_byte_le)
  from btoa_atob(1) [OF this] have "btoa ?binary = Inr (b64_encode (map unat (pcm_bytes samples)))"
    by (simp add: unat_ucast_byte comp_def)
  then show ?thesis
    by (simp add: createBlob_def pcm_bytes_def binary_loop Let_def)
qed

lemma decode_createBlob:
  "decode (b64_encode (map unat (pcm_bytes samples))) = Inr (pcm_bytes samples)"
proof -
  let ?binary = "map ucast (pcm_bytes samples) :: jsstring"
  have "list_all (\<lambda>c. c \<le> 0xFF) ?binary"
    by (simp add: list_all_iff ucast_byte_le)
  from btoa_atob(2) [OF this] have "atob (b64_encode (map unat (pcm_bytes samples))) = Inr ?binary"
    by (simp add: unat_ucast_byte comp_def)
  then show ?thesis
    by (simp add: decode_def ucast_ucast_byte comp_def)
qed

lemma int16_view_bytes: "int16_view (concat (map int16_bytes ws)) = ws"
  by (induction ws) (simp_all add: int16_bytes_def int16_of_bytes)

lemma length_bytes: "length (concat (map int16_bytes ws)) = 2 * length ws"
  by (induction ws) (simp_all add: int16_bytes_def)

lemma round_trip_eq:
  assumes "samples \<noteq> []"
  shows "round_trip rate samples =
     Inr \<lparr>sampleRate = rate, frames = length samples,
          channelData = [map (\<lambda>x. real_of_int (sint (ToInt16 (times_32768 x))) / 32768) samples]\<rparr>"
proof -
  let ?ws = "map (\<lambda>x. ToInt16 (times_32768 x)) samples"
  have v: "int16_view (pcm_bytes samples) = ?ws"
    unfolding pcm_bytes_def by (rule int16_view_bytes)
  have l: "length (pcm_bytes samples) = 2 * length samples"
    unfolding pcm_bytes_def by (simp only: length_bytes length_map)
  have n: "map (\<lambda>i. real_of_int (sint (?ws ! i)) / 32768) [0..<length samples]
     = map (\<lambda>x. real_of_int (sint (ToInt16 (times_32768 x))) / 32768) samples"
    by (rule nth_equalityI) simp_all
  have "decodeAudioData (pcm_bytes samples) rate 1 =
     Inr \<lparr>sampleRate = rate, frames = length samples,
          channelData = [map (\<lambda>x. real_of_int (sint (ToInt16 (times_32768 x))) / 32768) samples]\<rparr>"
    using assms n by (simp add: decodeAudioData_def v l Let_def)
  then show ?thesis
    by (simp add: round_trip_def createBlob_data decode_createBlob)
qed

lemma trunc_error: "\<bar>real_of_int (trunc y) - y\<bar> < 1"
  unfolding trunc_def by (cases "y < 0") (simp_all, linarith+)

lemma trunc_range:
  assumes "- 1 \<le> r" "r < 1"
  shows "- 32768 \<le> trunc (r * 32768)" "trunc (r * 32768) < 32768"
proof -
  from assms have "- 32768 \<le> r * 32768" "r * 32768 < 32768" by simp_all
  then show "- 32768 \<le> trunc (r * 32768)" "trunc (r * 32768) < 32768"
    unfolding trunc_def by (auto simp: le_ceiling_iff floor_less_iff)
qed

lemma sint_in_range:
  assumes "- 32768 \<le> k" "k < 32768"
  shows "sint (word_of_int k :: 16 word) = k"
  using assms by (simp add: sint_sbintrunc' signed_take_bit_int_eq_self)

lemma sample_round_trip:
  assumes "below_full_scale x"
  shows "\<bar>real_of_int (sint (ToInt16 (times_32768 x))) / 32768 - sample_value x\<bar> < 1 / 32768"
proof -
  from assms obtain r where x: "x = Finite r" and r: "- 1 \<le> r" "r < 1"
    by (cases x) (simp_all add: below_full_scale_def)
  let ?k = "trunc (r * 32768)"
  have s: "sint (ToInt16 (times_32768 x)) = ?k"
    using x trunc_range [OF r] by (simp add: sint_in_range)
  have "\<bar>real_of_int ?k - r * 32768\<bar> < 1" by (rule trunc_error)
  then have "\<bar>real_of_int ?k / 32768 - r\<bar> < 1 / 32768" by (simp add: field_simps abs_less_iff)
  with s x show ?thesis by (simp add: sample_value_def)
qed

lemma round_trip_empty: "round_trip rate [] = Inl NotSupportedError"
  by (simp add: round_trip_def createBlob_def btoa_def decode_def atob_def decodeAudioData_def)

text \<open>
  C1: the PCM round trip. For a non-empty buffer whose samples are finite and lie in
  \<open>[-1, 1)\<close>, encoding with \<^verbatim>\<open>createBlob\<close> and decoding its base64 text with \<^verbatim>\<open>decode\<close> and
  \<^verbatim>\<open>decodeAudioData\<close> (one channel) gives a buffer of the same length whose samples differ
  from the originals by at most \<open>1/32768\<close>. The sample 1 itself is outside: it is stored
  as -32768 and comes back as -1.
\<close>

theorem pcm_round_trip:
  "samples \<noteq> [] \<and> list_all below_full_scale samples \<longrightarrow>
     (\<exists>ys. round_trip rate samples =
              Inr \<lparr>sampleRate = rate, frames = length samples, channelData = [ys]\<rparr> \<and>
           length ys = length samples \<and>
           (\<forall>i. i < length samples \<longrightarrow> \<bar>ys ! i - sample_value (samples ! i)\<bar> \<le> 1 / 32768))"
proof
  assume a: "samples \<noteq> [] \<and> list_all below_full_scale samples"
  let ?ys = "map (\<lambda>x. real_of_int (sint (ToInt16 (times_32768 x))) / 32768) samples"
  have 1: "round_trip rate samples =
     Inr \<lparr>sampleRate = rate, frames = length samples, channelData = [?ys]\<rparr>"
    using a by (simp add: round_trip_eq)
  have 2: "\<bar>?ys ! i - sample_value (samples ! i)\<bar> \<le> 1 / 32768" if "i < length samples" for i
  proof -
    from a that have "below_full_scale (samples ! i)" by (simp add: list_all_length)
    from sample_round_trip [OF this] that show ?thesis by simp
  qed
  from 1 2 show "\<exists>ys. round_trip rate samples =
              Inr \<lparr>sampleRate = rate, frames = length samples, channelData = [ys]\<rparr> \<and>
           length ys = length samples \<and>
           (\<forall>i. i < length samples \<longrightarrow> \<bar>ys ! i - sample_value (samples ! i)\<bar> \<le> 1 / 32768)"
    by (intro exI [of _ ?ys]) simp
qed

theorem pcm_round_trip_witness:
  "[Finite (1 / 2), Finite (- 1), Finite (3 / 10)] \<noteq> [] \<and>
   list_all below_full_scale [Finite (1 / 2), Finite (- 1), Finite (3 / 10)] \<and>
   round_trip 24000 [Finite (1 / 2), Finite (- 1), Finite (3 / 10)] =
     Inr \<lparr>sampleRate = 24000, frames = 3, channelData = [[1 / 2, - 1, 9830 / 32768]]\<rparr>"
proof -
  have h: "[Finite (1 / 2), Finite (- 1), Finite (3 / 10)] \<noteq> [] \<and>
   list_all below_full_scale [Finite (1 / 2), Finite (- 1), Finite (3 / 10)]"
    by (simp add: below_full_scale_def)
  have v: "round_trip 24000 [Finite (1 / 2), Finite (- 1), Finite (3 / 10)] =
     Inr \<lparr>sampleRate = 24000, frames = 3, channelData = [[1 / 2, - 1, 9830 / 32768]]\<rparr>"
    by (simp add: round_trip_eq trunc_def)
  from h v pcm_round_trip [of "[Finite (1 / 2), Finite (- 1), Finite (3 / 10)]" 24000]
  show ?thesis by simp
qed

theorem pcm_round_trip_counterexample:
  "round_trip 24000 [Finite 1] = Inr \<lparr>sampleRate = 24000, frames = 1, channelData = [[- 1]]\<rparr> \<and>
   \<not> \<bar>(- 1 :: real) - 1\<bar> \<le> 1 / 32768"
  by (simp add: round_trip_eq trunc_def)

lemma unat_word_of_int16: "unat (word_of_int k :: 16 word) = nat (k mod 65536)"
  by (simp add: unat_eq_nat_uint uint_word_of_int)

lemma pcm16_value_mod: "pcm16_value (Finite r) mod 65536 = trunc (r * 32768) mod 65536"
  by (simp add: pcm16_value_def mod_diff_left_eq)

lemma bytes_of_word16:
  "map unat (int16_bytes w) = [unat w mod 256, unat w div 256]"
proof -
  have "unat w < 2 ^ LENGTH(16)" by (rule unsigned_less)
  then have "unat w div 256 < 256" by simp
  then show ?thesis
    by (simp add: int16_bytes_def unsigned_ucast_eq take_bit_eq_mod unat_drop_bit_eq
        drop_bit_eq_div unat_div)
qed

lemma sample_bytes: "map unat (int16_bytes (ToInt16 (times_32768 x))) = pcm16le_bytes x"
proof (cases x)
  case (Finite r)
  then show ?thesis
    by (simp add: bytes_of_word16 pcm16le_bytes_def unat_word_of_int16 pcm16_value_mod Let_def)
qed (simp_all add: bytes_of_word16 pcm16le_bytes_def pcm16_value_def)

lemma pcm_bytes_spec: "map unat (pcm_bytes samples) = concat (map pcm16le_bytes samples)"
  unfolding pcm_bytes_def by (induction samples) (simp_all add: sample_bytes)

lemma createBlob_spec:
  "createBlob samples =
     Inr \<lparr>mimeType = js ''audio/pcm;rate=16000'',
          data = b64_encode (concat (map pcm16le_bytes samples))\<rparr>"
  by (simp add: createBlob_data pcm_bytes_spec)

lemma btoa_spec:
  "btoa (map of_nat (concat (map pcm16le_bytes samples))) =
     Inr (b64_encode (concat (map pcm16le_bytes samples)))"
proof -
  have "btoa (map ucast (pcm_bytes samples)) = Inr (b64_encode (map unat (pcm_bytes samples)))"
  proof -
    have "list_all (\<lambda>c. c \<le> 0xFF) (map ucast (pcm_bytes samples) :: jsstring)"
      by (simp add: list_all_iff ucast_byte_le)
    from btoa_atob(1) [OF this] show ?thesis by (simp add: unat_ucast_byte comp_def)
  qed
  moreover have "(map ucast (pcm_bytes samples) :: jsstring) = map of_nat (map unat (pcm_bytes samples))"
    by simp
  ultimately show ?thesis by (simp only: pcm_bytes_spec)
qed

lemma capture_frames_calls:
  "calls (capture_frames fs s) =
     calls s @ map (\<lambda>f. SendRealtimeInput \<lparr>mimeType = js ''audio/pcm;rate=16000'',
                       data = b64_encode (concat (map pcm16le_bytes f))\<rparr>) fs"
  by (induction fs arbitrary: s) (simp_all add: onaudioprocess_def createBlob_spec)

text \<open>
  C6: the encoder contract. \<^verbatim>\<open>createBlob\<close> is a function of its input: it returns the MIME
  type \<^verbatim>\<open>audio/pcm;rate=16000\<close> and, as data, the base64 text of the samples multiplied by
  32768 and stored as 16-bit two's complement numbers, low byte first; every captured frame
  gives exactly one outbound message with that blob; a sample outside \<open>[-1, 1]\<close> is not
  clamped but wraps (1.5 becomes -16384, bytes 00 C0).
\<close>

theorem createBlob_contract:
  "createBlob samples =
     Inr \<lparr>mimeType = js ''audio/pcm;rate=16000'',
          data = b64_encode (concat (map pcm16le_bytes samples))\<rparr> \<and>
   btoa (map of_nat (concat (map pcm16le_bytes samples))) =
     Inr (b64_encode (concat (map pcm16le_bytes samples))) \<and>
   calls (capture_frames fs s) =
     calls s @ map (\<lambda>f. SendRealtimeInput \<lparr>mimeType = js ''audio/pcm;rate=16000'',
                       data = b64_encode (concat (map pcm16le_bytes f))\<rparr>) fs \<and>
   pcm16le_bytes (Finite (3 / 2)) = [0, 192] \<and>
   createBlob [Finite (3 / 2)] =
     Inr \<lparr>mimeType = js ''audio/pcm;rate=16000'', data = js ''AMA=''\<rparr>"
proof -
  have "pcm16le_bytes (Finite (3 / 2)) = [0, 192]"
    by (simp add: pcm16le_bytes_def pcm16_value_def trunc_def)
  moreover from this have "createBlob [Finite (3 / 2)] =
     Inr \<lparr>mimeType = js ''audio/pcm;rate=16000'', data = js ''AMA=''\<rparr>"
    by (simp add: createBlob_spec b64_char_def b64_pad_def js_def)
  ultimately show ?thesis
    using createBlob_spec btoa_spec capture_frames_calls by blast
qed

section \<open>Properties of the live session\<close>

lemma calls_stopSession:
  "calls (stopSession s) =
     calls s @ map SessionClose (held (sessionRef s)) @ map ContextClose (held (inputContextRef s))
       @ map ContextClose (held (outputContextRef s)) @ map SourceStop (sourcesRef s)"
  by (simp add: stopSession_def held_def Let_def split: option.splits)

lemma Disconnected_stopSession: "Disconnected (stopSession s)"
  by (simp add: stopSession_def Disconnected_def Let_def split: option.splits)

lemma stopSession_Disconnected: "Disconnected s \<Longrightarrow> stopSession s = s"
  by (simp add: stopSession_def Disconnected_def Let_def)

lemma stopSession_fields:
  "error (stopSession s) = error s" "nextStartTimeRef (stopSession s) = nextStartTimeRef s"
  "liveStreams (stopSession s) = liveStreams s"
  by (simp_all add: stopSession_def Let_def split: option.splits)

text \<open>
  C4: stopping is idempotent. On a disconnected session \<^verbatim>\<open>stopSession\<close> changes nothing and
  calls nothing on the platform (so nothing can raise); with the refs empty and no source
  tracked it makes no call and ends disconnected; after any call the state is disconnected,
  and a second call in a row leaves it as the first one did.
\<close>

theorem stopSession_idempotent:
  "(Disconnected s \<longrightarrow> stopSession s = s) \<and>
   (sessionRef s = None \<and> inputContextRef s = None \<and> outputContextRef s = None \<and>
    sourcesRef s = [] \<longrightarrow> calls (stopSession s) = calls s \<and> Disconnected (stopSession s)) \<and>
   Disconnected (stopSession s) \<and>
   stopSession (stopSession s) = stopSession s"
proof -
  have "calls (stopSession s) = calls s"
    if "sessionRef s = None \<and> inputContextRef s = None \<and> outputContextRef s = None \<and>
        sourcesRef s = []"
    using that by (simp add: calls_stopSession held_def)
  moreover have "stopSession (stopSession s) = stopSession s"
    by (rule stopSession_Disconnected) (rule Disconnected_stopSession)
  ultimately show ?thesis
    using stopSession_Disconnected Disconnected_stopSession by blast
qed

theorem stopSession_idempotent_witness:
  "Disconnected initial_live \<and> stopSession initial_live = initial_live \<and>
   stopSession (stopSession initial_live) = initial_live"
proof -
  have h: "Disconnected initial_live" by (simp add: Disconnected_def initial_live_def)
  with stopSession_idempotent [of initial_live] show ?thesis by simp
qed

text \<open>
  C5: the order of the teardown. In one synchronous call \<^verbatim>\<open>stopSession\<close> first closes the
  session and the two audio contexts and clears their refs, and then stops every tracked
  source and clears the set: the drain comes after the release, not before it.
\<close>

theorem stopSession_release_then_drain:
  "calls (stopSession s) =
     calls s @ map SessionClose (held (sessionRef s)) @ map ContextClose (held (inputContextRef s))
       @ map ContextClose (held (outputContextRef s)) @ map SourceStop (sourcesRef s) \<and>
   sourcesRef (stopSession s) = [] \<and> sessionRef (stopSession s) = None \<and>
   inputContextRef (stopSession s) = None \<and> outputContextRef (stopSession s) = None"
  using calls_stopSession [of s] Disconnected_stopSession [of s]
  by (simp add: Disconnected_def)

theorem stopSession_order_counterexample:
  "calls (stopSession \<lparr>isConnected = True, error = [], isSpeaking = True,
       inputContextRef = Some 1, outputContextRef = Some 2, sessionRef = Some 3,
       nextStartTimeRef = 1, sourcesRef = [7, 8], calls = [], liveStreams = [4]\<rparr>)
     = [SessionClose 3, ContextClose 1, ContextClose 2, SourceStop 7, SourceStop 8] \<and>
   \<not> occurs_before (SourceStop 7) (ContextClose 2)
       (calls (stopSession \<lparr>isConnected = True, error = [], isSpeaking = True,
       inputContextRef = Some 1, outputContextRef = Some 2, sessionRef = Some 3,
       nextStartTimeRef = 1, sourcesRef = [7, 8], calls = [], liveStreams = [4]\<rparr>))"
  by (simp add: stopSession_def Let_def)

lemma count_list_SourceStop:
  "count_list (map SourceStop xs) GetUserMedia = 0" "count_list (map SourceStop xs) Connect = 0"
  by (induction xs) auto

lemma count_list_stopSession:
  "count_list (calls (stopSession s)) GetUserMedia = count_list (calls s) GetUserMedia"
  "count_list (calls (stopSession s)) Connect = count_list (calls s) Connect"
  by (simp_all add: calls_stopSession held_def count_list_SourceStop split: option.splits)

lemma start_failed_outcome:
  "Disconnected (start_failed s) \<and>
   error (start_failed s) = js ''Failed to access microphone or connect.'' \<and>
   liveStreams (start_failed s) = liveStreams s \<and>
   calls (start_failed s) =
     calls s @ map SessionClose (held (sessionRef s)) @ map ContextClose (held (inputContextRef s))
       @ map ContextClose (held (outputContextRef s)) @ map SourceStop (sourcesRef s)"
  by (simp add: start_failed_def Disconnected_stopSession stopSession_fields calls_stopSession)

lemma onerror_outcome:
  "Disconnected (onerror s) \<and>
   error (onerror s) = js ''Connection error.'' \<and>
   liveStreams (onerror s) = liveStreams s \<and>
   calls (onerror s) =
     calls s @ map SessionClose (held (sessionRef s)) @ map ContextClose (held (inputContextRef s))
       @ map ContextClose (held (outputContextRef s)) @ map SourceStop (sourcesRef s)"
  by (simp add: onerror_def Disconnected_stopSession stopSession_fields calls_stopSession)

lemma count_list_SessionClose:
  "count_list (map SessionClose xs) GetUserMedia = 0" "count_list (map SessionClose xs) Connect = 0"
  by (induction xs) auto

text \<open>
  When a constructor of an audio context raises, the refs are not assigned yet and the
  teardown closes what they held before. A first context that was created before the
  second constructor raised is held by no ref and is not closed.
\<close>

lemma startSession_second_context_fails:
  "calls (startSession \<lparr>audioContexts = SecondContextFails 1, microphone = Some 4,
                          connection = SessionOpened 3\<rparr> initial_live)
     = [NewAudioContext 16000 (Some 1), NewAudioContext 24000 None] \<and>
   Disconnected (startSession \<lparr>audioContexts = SecondContextFails 1, microphone = Some 4,
                          connection = SessionOpened 3\<rparr> initial_live)"
  by (simp add: startSession_def start_failed_outcome held_def initial_live_def)

text \<open>
  C7: a failure while connecting. When, with both audio contexts created, the microphone
  or the connection fails during \<^verbatim>\<open>startSession\<close>, an error message is set and the teardown
  runs: after the two constructor calls, the one \<^verbatim>\<open>getUserMedia\<close> and at most one connection
  attempt, the platform sees the close of a session held from before, the close of both
  new audio contexts and the stop of every tracked source, and nothing else; the state is
  disconnected. So neither \<^verbatim>\<open>getUserMedia\<close> nor the connection is tried again. A microphone
  stream that was already acquired stays live: the teardown never stops the stream.
\<close>

theorem startSession_failure:
  "audioContexts env = ContextsCreated inputCtx outputCtx \<and> start_fails env \<longrightarrow>
     Disconnected (startSession env s) \<and>
     error (startSession env s) =
       (if microphone env \<noteq> None \<and> connection env = ConnectError
        then js ''Connection error.'' else js ''Failed to access microphone or connect.'') \<and>
     error (startSession env s) \<noteq> [] \<and>
     calls (startSession env s) =
       calls s @ [NewAudioContext 16000 (Some inputCtx), NewAudioContext 24000 (Some outputCtx),
                  GetUserMedia]
         @ (if microphone env = None then [] else [Connect])
         @ map SessionClose (held (sessionRef s))
         @ [ContextClose inputCtx, ContextClose outputCtx]
         @ map SourceStop (sourcesRef s) \<and>
     count_list (calls (startSession env s)) GetUserMedia = count_list (calls s) GetUserMedia + 1 \<and>
     count_list (calls (startSession env s)) Connect \<le> count_list (calls s) Connect + 1 \<and>
     liveStreams (startSession env s) = liveStreams s @ held (microphone env)"
proof
  assume a: "audioContexts env = ContextsCreated inputCtx outputCtx \<and> start_fails env"
  then have ctx: "audioContexts env = ContextsCreated inputCtx outputCtx" and f: "start_fails env"
    by simp_all
  have ne: "js ''Failed to access microphone or connect.'' \<noteq> []" "js ''Connection error.'' \<noteq> []"
    by (simp_all add: js_def)
  let ?log = "calls s @ [NewAudioContext 16000 (Some inputCtx),
                  NewAudioContext 24000 (Some outputCtx), GetUserMedia]
         @ (if microphone env = None then [] else [Connect])
         @ map SessionClose (held (sessionRef s))
         @ [ContextClose inputCtx, ContextClose outputCtx]
         @ map SourceStop (sourcesRef s)"
  have main: "Disconnected (startSession env s) \<and>
     error (startSession env s) =
       (if microphone env \<noteq> None \<and> connection env = ConnectError
        then js ''Connection error.'' else js ''Failed to access microphone or connect.'') \<and>
     calls (startSession env s) = ?log \<and>
     liveStreams (startSession env s) = liveStreams s @ held (microphone env)"
  proof (cases "microphone env")
    case None
    with ctx show ?thesis
      by (simp add: startSession_def start_failed_outcome held_def)
  next
    case mic: (Some stream)
    show ?thesis
    proof (cases "connection env")
      case (SessionOpened h)
      with f mic show ?thesis by (simp add: start_fails_def)
    next
      case ConnectRejected
      with ctx mic show ?thesis
        by (simp add: startSession_def start_failed_outcome held_def)
    next
      case ConnectError
      with ctx mic show ?thesis
        by (simp add: startSession_def onerror_outcome held_def)
    qed
  qed
  then have log: "calls (startSession env s) = ?log" by simp
  have c1: "count_list ?log GetUserMedia = count_list (calls s) GetUserMedia + 1"
    by (simp add: count_list_SessionClose count_list_SourceStop)
  have c2: "count_list ?log Connect \<le> count_list (calls s) Connect + 1"
    by (simp add: count_list_SessionClose count_list_SourceStop)
  from main ne have e: "error (startSession env s) \<noteq> []" by auto
  from main e c1 c2 show "Disconnected (startSession env s) \<and>
     error (startSession env s) =
       (if microphone env \<noteq> None \<and> connection env = ConnectError
        then js ''Connection error.'' else js ''Failed to access microphone or connect.'') \<and>
     error (startSession env s) \<noteq> [] \<and>
     calls (startSession env s) = ?log \<and>
     count_list (calls (startSession env s)) GetUserMedia = count_list (calls s) GetUserMedia + 1 \<and>
     count_list (calls (startSession env s)) Connect \<le> count_list (calls s) Connect + 1 \<and>
     liveStreams (startSession env s) = liveStreams s @ held (microphone env)"
    unfolding log by blast
qed

theorem startSession_failure_witness:
  "audioContexts \<lparr>audioContexts = ContextsCreated 1 2, microphone = Some 4,
                   connection = ConnectError\<rparr> = ContextsCreated 1 2 \<and>
   start_fails \<lparr>audioContexts = ContextsCreated 1 2, microphone = Some 4,
                 connection = ConnectError\<rparr> \<and>
   Disconnected (startSession \<lparr>audioContexts = ContextsCreated 1 2, microphone = Some 4,
                                connection = ConnectError\<rparr> initial_live) \<and>
   error (startSession \<lparr>audioContexts = ContextsCreated 1 2, microphone = Some 4,
                         connection = ConnectError\<rparr> initial_live) = js ''Connection error.'' \<and>
   calls (startSession \<lparr>audioContexts = ContextsCreated 1 2, microphone = Some 4,
                         connection = ConnectError\<rparr> initial_live)
     = [NewAudioContext 16000 (Some 1), NewAudioContext 24000 (Some 2), GetUserMedia, Connect,
        ContextClose 1, ContextClose 2] \<and>
   liveStreams (startSession \<lparr>audioContexts = ContextsCreated 1 2, microphone = Some 4,
                               connection = ConnectError\<rparr> initial_live) = [4]"
proof -
  have h: "audioContexts \<lparr>audioContexts = ContextsCreated 1 2, microphone = Some 4,
                   connection = ConnectError\<rparr> = ContextsCreated 1 2 \<and>
     start_fails \<lparr>audioContexts = ContextsCreated 1 2, microphone = Some 4,
                 connection = ConnectError\<rparr>"
    by (simp add: start_fails_def)
  from h startSession_failure [of "\<lparr>audioContexts = ContextsCreated 1 2, microphone = Some 4,
      connection = ConnectError\<rparr>" 1 2 initial_live]
  show ?thesis by (simp add: held_def initial_live_def)
qed

theorem startSession_failure_counterexample:
  "liveStreams (startSession \<lparr>audioContexts = ContextsCreated 1 2, microphone = Some 4,
                               connection = ConnectRejected\<rparr> initial_live) = [4] \<and>
   Disconnected (startSession \<lparr>audioContexts = ContextsCreated 1 2, microphone = Some 4,
                               connection = ConnectRejected\<rparr> initial_live)"
  by (simp add: startSession_def start_failed_def stopSession_def initial_live_def Let_def
      Disconnected_def)

lemma onmessage_plays:
  assumes "outputContextRef s = Some ctx" "plays m"
  shows "onmessage now src m s =
     (None, s\<lparr>isSpeaking := True,
              calls := calls s @ [SourceStart src (max (nextStartTimeRef s) now)],
              nextStartTimeRef := max (nextStartTimeRef s) now + chunk_duration m,
              sourcesRef := set_add src (sourcesRef s)\<rparr>)"
proof -
  from assms(2) obtain b buf where b: "audio m = Some b" "b \<noteq> []" "decode_chunk b = Inr buf"
    "interrupted m = False"
    by (auto simp: plays_def split: option.splits sum.splits) (metis isl_def sum.exhaust)
  then have d: "chunk_duration m = duration buf"
    by (simp add: chunk_duration_def)
  from assms(1) b d show ?thesis
    by (simp add: onmessage_def on_interrupted_def Let_def)
qed

lemma start_times_append: "start_times (xs @ ys) = start_times xs @ start_times ys"
  by (induction xs rule: start_times.induct) auto

lemma handle_messages_starts:
  "outputContextRef s = Some ctx \<Longrightarrow> list_all (\<lambda>(now, src, m). plays m) ms \<Longrightarrow>
   start_times (calls (handle_messages ms s)) =
     start_times (calls s) @ starts_from (nextStartTimeRef s) ms"
proof (induction ms arbitrary: s)
  case Nil
  then show ?case by simp
next
  case (Cons e ms)
  obtain now src m where e: "e = (now, src, m)" by (cases e)
  with Cons.prems have p: "plays m" and rest: "list_all (\<lambda>(now, src, m). plays m) ms" by auto
  let ?s = "snd (onmessage now src m s)"
  from onmessage_plays [OF Cons.prems(1) p, of now src]
  have s': "outputContextRef ?s = Some ctx"
    "nextStartTimeRef ?s = max (nextStartTimeRef s) now + chunk_duration m"
    "calls ?s = calls s @ [SourceStart src (max (nextStartTimeRef s) now)]"
    using Cons.prems(1) by simp_all
  from Cons.IH [OF s'(1) rest] e s'(2,3) show ?case
    by (simp add: start_times_append)
qed

lemma length_starts_from: "length (starts_from c ms) = length ms"
  by (induction c ms rule: starts_from.induct) auto

lemma starts_from_gapless:
  "Suc k < length ms \<Longrightarrow> fst (ms ! Suc k) \<le> starts_from c ms ! k + chunk_duration (snd (snd (ms ! k))) \<Longrightarrow>
   starts_from c ms ! Suc k = starts_from c ms ! k + chunk_duration (snd (snd (ms ! k)))"
proof (induction c ms arbitrary: k rule: starts_from.induct)
  case (1 c)
  then show ?case by simp
next
  case (2 c now src m ms)
  show ?case
  proof (cases k)
    case 0
    with "2.prems" obtain now' src' m' ms' where ms: "ms = (now', src', m') # ms'"
      by (cases ms) auto
    with 0 "2.prems" show ?thesis by simp
  next
    case (Suc j)
    with "2.prems" "2.IH" [of j] show ?thesis by simp
  qed
qed

text \<open>
  C2: gapless scheduling. A chunk that decodes is started at the maximum of the playback
  clock and the cursor, and the cursor then advances by the duration of the chunk. Hence,
  for chunks handled in their order of arrival, whenever chunk \<open>k + 1\<close> is handled no later
  than the end of chunk \<open>k\<close>, it starts exactly where chunk \<open>k\<close> ends.
\<close>

theorem gapless_scheduling:
  "(outputContextRef s = Some ctx \<and> plays m \<longrightarrow>
      onmessage now src m s =
        (None, s\<lparr>isSpeaking := True,
                 calls := calls s @ [SourceStart src (max (nextStartTimeRef s) now)],
                 nextStartTimeRef := max (nextStartTimeRef s) now + chunk_duration m,
                 sourcesRef := set_add src (sourcesRef s)\<rparr>)) \<and>
   (outputContextRef s = Some ctx \<and> list_all (\<lambda>(now, src, m). plays m) ms \<longrightarrow>
   (\<exists>sts. start_times (calls (handle_messages ms s)) = start_times (calls s) @ sts \<and>
      length sts = length ms \<and>
      (ms \<noteq> [] \<longrightarrow> sts ! 0 = max (nextStartTimeRef s) (fst (ms ! 0))) \<and>
      (\<forall>k. Suc k < length ms \<and>
            fst (ms ! Suc k) \<le> sts ! k + chunk_duration (snd (snd (ms ! k))) \<longrightarrow>
            sts ! Suc k = sts ! k + chunk_duration (snd (snd (ms ! k))))))"
proof (intro conjI impI)
  assume "outputContextRef s = Some ctx \<and> plays m"
  then show "onmessage now src m s =
        (None, s\<lparr>isSpeaking := True,
                 calls := calls s @ [SourceStart src (max (nextStartTimeRef s) now)],
                 nextStartTimeRef := max (nextStartTimeRef s) now + chunk_duration m,
                 sourcesRef := set_add src (sourcesRef s)\<rparr>)"
    using onmessage_plays by blast
next
  assume a: "outputContextRef s = Some ctx \<and> list_all (\<lambda>(now, src, m). plays m) ms"
  let ?sts = "starts_from (nextStartTimeRef s) ms"
  have 1: "start_times (calls (handle_messages ms s)) = start_times (calls s) @ ?sts"
    using a handle_messages_starts by blast
  have 2: "ms \<noteq> [] \<longrightarrow> ?sts ! 0 = max (nextStartTimeRef s) (fst (ms ! 0))"
    by (cases ms) auto
  from 1 2 length_starts_from starts_from_gapless
  show "\<exists>sts. start_times (calls (handle_messages ms s)) = start_times (calls s) @ sts \<and>
      length sts = length ms \<and>
      (ms \<noteq> [] \<longrightarrow> sts ! 0 = max (nextStartTimeRef s) (fst (ms ! 0))) \<and>
      (\<forall>k. Suc k < length ms \<and>
            fst (ms ! Suc k) \<le> sts ! k + chunk_duration (snd (snd (ms ! k))) \<longrightarrow>
            sts ! Suc k = sts ! k + chunk_duration (snd (snd (ms ! k))))"
    by blast
qed

lemma decode_chunk_AIA:
  "decode_chunk (js ''AIA='') = Inr \<lparr>sampleRate = 24000, frames = 1, channelData = [[- 1]]\<rparr>"
  by (simp add: decode_chunk_def decode_def atob_def ascii_whitespace_def b64_value_def
      b64_pad_def decodeAudioData_def js_def)

theorem gapless_scheduling_witness:
  "outputContextRef (initial_live\<lparr>outputContextRef := Some 2\<rparr>) = Some 2 \<and>
   list_all (\<lambda>(now :: real, src :: handle, m). plays m)
     [(1 / 2, 7, \<lparr>audio = Some (js ''AIA=''), interrupted = False\<rparr>),
      (1 / 2, 8, \<lparr>audio = Some (js ''AIA=''), interrupted = False\<rparr>)] \<and>
   start_times (calls (handle_messages
     [(1 / 2, 7, \<lparr>audio = Some (js ''AIA=''), interrupted = False\<rparr>),
      (1 / 2, 8, \<lparr>audio = Some (js ''AIA=''), interrupted = False\<rparr>)]
     (initial_live\<lparr>outputContextRef := Some 2\<rparr>))) = [1 / 2, 1 / 2 + 1 / 24000]"
proof -
  define s0 where "s0 = initial_live\<lparr>outputContextRef := Some 2\<rparr>"
  define m0 where "m0 = \<lparr>audio = Some (js ''AIA=''), interrupted = False\<rparr>"
  define ms0 :: "(real \<times> handle \<times> ServerMessage) list"
    where "ms0 = [(1 / 2, 7, m0), (1 / 2, 8, m0)]"
  have p: "plays m0"
    unfolding m0_def by (simp add: plays_def decode_chunk_AIA) (simp add: js_def)
  have d: "chunk_duration m0 = 1 / 24000"
    unfolding m0_def by (simp add: chunk_duration_def decode_chunk_AIA duration_def)
  from p have h: "outputContextRef s0 = Some 2 \<and> list_all (\<lambda>(now, src, m). plays m) ms0"
    by (simp add: s0_def ms0_def)
  from gapless_scheduling [where s = s0 and ctx = 2 and ms = ms0, THEN conjunct2, THEN mp, OF h]
  obtain sts where
    1: "start_times (calls (handle_messages ms0 s0)) = start_times (calls s0) @ sts" and
    2: "length sts = length ms0" and
    3: "ms0 \<noteq> [] \<longrightarrow> sts ! 0 = max (nextStartTimeRef s0) (fst (ms0 ! 0))" and
    4: "\<forall>k. Suc k < length ms0 \<and>
            fst (ms0 ! Suc k) \<le> sts ! k + chunk_duration (snd (snd (ms0 ! k))) \<longrightarrow>
            sts ! Suc k = sts ! k + chunk_duration (snd (snd (ms0 ! k)))"
    by blast
  from 3 have first: "sts ! 0 = 1 / 2"
    by (simp add: ms0_def s0_def initial_live_def)
  from 4 [rule_format, of 0] first d have second: "sts ! Suc 0 = 1 / 2 + 1 / 24000"
    by (simp add: ms0_def)
  from 2 obtain a b where sts: "sts = [a, b]"
    by (cases sts; cases "tl sts") (auto simp: ms0_def)
  with first second have "sts = [1 / 2, 1 / 2 + 1 / 24000]" by simp
  with 1 have "start_times (calls (handle_messages ms0 s0)) = [1 / 2, 1 / 2 + 1 / 24000]"
    by (simp add: s0_def initial_live_def)
  with h show ?thesis
    unfolding s0_def ms0_def m0_def by blast
qed

text \<open>
  An interruption that the handler reaches stops every tracked source, clears the set,
  resets the cursor to zero and clears the speaking flag; the next chunk then starts at the
  playback clock.
\<close>

lemma onmessage_interrupted_reached:
  assumes "interrupted m"
    and "audio m = None \<or> audio m = Some [] \<or>
         (\<exists>b ctx buf. audio m = Some b \<and> outputContextRef s = Some ctx \<and> decode_chunk b = Inr buf)"
  shows "sourcesRef (snd (onmessage now src m s)) = [] \<and>
     nextStartTimeRef (snd (onmessage now src m s)) = 0 \<and>
     isSpeaking (snd (onmessage now src m s)) = False \<and>
     set (map SourceStop (sourcesRef s)) \<subseteq> set (calls (snd (onmessage now src m s)))"
  using assms
  by (auto simp: onmessage_def on_interrupted_def Let_def set_add_def split: option.splits)

lemma chunk_after_interruption:
  assumes "nextStartTimeRef s = 0" "0 \<le> now" "outputContextRef s = Some ctx" "plays m"
  shows "calls (snd (onmessage now src m s)) = calls s @ [SourceStart src now]"
  using onmessage_plays [OF assms(3,4), of now src] assms(1,2) by simp

text \<open>
  C3: interruption. The claim is that whenever a message carrying \<^verbatim>\<open>interrupted\<close> is handled,
  every scheduled source is stopped and removed, the cursor is reset to zero and the
  speaking flag is cleared. The handler does so when it reaches its second \<^verbatim>\<open>if\<close>
  (\<open>onmessage_interrupted_reached\<close>), but it returns before that when the same message
  carries audio while no output context is held: here the speaking flag is set and stays
  set, and the cursor keeps its value 5.
\<close>

theorem onmessage_interrupted_skipped:
  "onmessage 2 9 \<lparr>audio = Some (js ''AIA=''), interrupted = True\<rparr>
     \<lparr>isConnected = False, error = [], isSpeaking = False,
       inputContextRef = None, outputContextRef = None, sessionRef = Some 3,
       nextStartTimeRef = 5, sourcesRef = [], calls = [], liveStreams = [4]\<rparr>
   = (None, \<lparr>isConnected = False, error = [], isSpeaking = True,
       inputContextRef = None, outputContextRef = None, sessionRef = Some 3,
       nextStartTimeRef = 5, sourcesRef = [], calls = [], liveStreams = [4]\<rparr>)"
  by (simp add: onmessage_def js_def)

end
